theory Spec2Isabelle
  imports Complex_Main
begin

section \<open>Go's \<^verbatim>\<open>float64\<close>\<close>

text \<open>
  Durations are Go \<^verbatim>\<open>float64\<close> values: IEEE 754 binary64 numbers. A value is a finite
  number, an infinity or NaN. A finite value carries the real number it stands for; the
  values the program can hold are those with a 53-bit significand and a binary exponent
  between -1074 and 971, and the two zeros are taken as one (they compare equal and the
  program never divides). Arithmetic rounds the exact result to the nearest such value,
  ties to the even significand, and overflows to an infinity.

  \<open>round64\<close> is that rounding: the magnitude is scaled into \<open>[2^52, 2^53)\<close> by halving or
  doubling (doubling stops at the exponent -1074 of the subnormal numbers), rounded to an
  integer, and scaled back. The magnitudes from \<open>2^1024 - 2^970\<close> on round to an infinity.
\<close>

datatype float64 = Fin real | PInf | NInf | NaN

function halve_to_53_bits :: "real \<Rightarrow> int \<Rightarrow> real \<times> int" where
  "halve_to_53_bits a e = (if a \<ge> 2 ^ 53 then halve_to_53_bits (a / 2) (e + 1) else (a, e))"
  by pat_completeness auto
termination
proof (relation "measure (\<lambda>(a, e). nat \<lfloor>a\<rfloor>)")
  show "wf (measure (\<lambda>(a, e). nat \<lfloor>a\<rfloor>))" by simp
next
  fix a :: real and e :: int
  assume a: "2 ^ 53 \<le> a"
  then have "a / 2 \<le> a - 1" by simp
  then have "\<lfloor>a / 2\<rfloor> \<le> \<lfloor>a - 1\<rfloor>" by (rule floor_mono)
  moreover have "\<lfloor>a - 1\<rfloor> = \<lfloor>a\<rfloor> - 1" by simp
  moreover from a have "1 \<le> \<lfloor>a\<rfloor>" by (simp add: le_floor_iff)
  ultimately show "((a / 2, e + 1), (a, e)) \<in> measure (\<lambda>(a, e). nat \<lfloor>a\<rfloor>)"
    by simp
qed

function double_to_53_bits :: "real \<Rightarrow> int \<Rightarrow> real \<times> int" where
  "double_to_53_bits a e =
     (if a < 2 ^ 52 \<and> e > - 1074 then double_to_53_bits (a * 2) (e - 1) else (a, e))"
  by pat_completeness auto
termination
  by (relation "measure (\<lambda>(a, e). nat (e + 1074))") auto

declare halve_to_53_bits.simps [simp del]

declare double_to_53_bits.simps [simp del]

definition round_half_even :: "real \<Rightarrow> int" where
  "round_half_even a =
     (let f = \<lfloor>a\<rfloor>; d = a - of_int f
      in if d < 1 / 2 then f
         else if d > 1 / 2 then f + 1
         else if even f then f else f + 1)"

definition pow2 :: "int \<Rightarrow> real" where
  "pow2 e = (if e \<ge> 0 then 2 ^ nat e else 1 / 2 ^ nat (- e))"

definition round64 :: "real \<Rightarrow> float64" where
  "round64 x =
     (if x = 0 then Fin 0
      else if \<bar>x\<bar> \<ge> 2 ^ 1024 - 2 ^ 970 then (if x > 0 then PInf else NInf)
      else
        (let (a, e) = halve_to_53_bits \<bar>x\<bar> 0;
             (a, e) = double_to_53_bits a e;
             r = of_int (round_half_even a) * pow2 e
         in Fin (if x < 0 then - r else r)))"

text \<open>
  Subtraction and the comparisons \<^verbatim>\<open><\<close> and \<^verbatim>\<open><=\<close>. Every comparison with NaN is false.
  \<^verbatim>\<open>a >= b\<close> is \<^verbatim>\<open>b <= a\<close> and \<^verbatim>\<open>a > b\<close> is \<^verbatim>\<open>b < a\<close>.
\<close>

fun f64_sub :: "float64 \<Rightarrow> float64 \<Rightarrow> float64" where
  "f64_sub NaN y = NaN"
| "f64_sub x NaN = NaN"
| "f64_sub PInf PInf = NaN"
| "f64_sub NInf NInf = NaN"
| "f64_sub PInf y = PInf"
| "f64_sub NInf y = NInf"
| "f64_sub (Fin a) PInf = NInf"
| "f64_sub (Fin a) NInf = PInf"
| "f64_sub (Fin a) (Fin b) = round64 (a - b)"

fun f64_lt :: "float64 \<Rightarrow> float64 \<Rightarrow> bool" where
  "f64_lt NaN y = False"
| "f64_lt x NaN = False"
| "f64_lt x NInf = False"
| "f64_lt PInf y = False"
| "f64_lt NInf y = True"
| "f64_lt (Fin a) PInf = True"
| "f64_lt (Fin a) (Fin b) = (a < b)"

fun f64_le :: "float64 \<Rightarrow> float64 \<Rightarrow> bool" where
  "f64_le NaN y = False"
| "f64_le x NaN = False"
| "f64_le NInf y = True"
| "f64_le x PInf = True"
| "f64_le PInf y = False"
| "f64_le (Fin a) NInf = False"
| "f64_le (Fin a) (Fin b) = (a \<le> b)"

abbreviation f64_ge :: "float64 \<Rightarrow> float64 \<Rightarrow> bool" where
  "f64_ge a b \<equiv> f64_le b a"

abbreviation f64_gt :: "float64 \<Rightarrow> float64 \<Rightarrow> bool" where
  "f64_gt a b \<equiv> f64_lt b a"

section \<open>Data model\<close>

text \<open>
  The splitter's \<^verbatim>\<open>Config\<close> struct and its \<^verbatim>\<open>segment\<close> struct. The field \<^verbatim>\<open>end\<close> is
  written \<open>end'\<close>.
\<close>

record Config =
  InputFile :: string
  MinSilenceDur :: float64
  SilenceThreshold :: string
  MinSongLength :: float64
  OutputPrefix :: string
  OutputDir :: string
  UploadToDrive :: bool
  RcloneRemote :: string
  DriveSubfolder :: string
  SetlistFile :: string

record segment =
  start :: float64
  end' :: float64

definition defaultConfig :: Config where
  "defaultConfig =
     \<lparr>InputFile = ''practice_session.mp4'',
      MinSilenceDur = Fin 2.0,
      SilenceThreshold = ''-12dB'',
      MinSongLength = Fin 200.0,
      OutputPrefix = ''Song'',
      OutputDir = ''output'',
      UploadToDrive = False,
      RcloneRemote = ''gdrive:'',
      DriveSubfolder = ''SplitSongs'',
      SetlistFile = ''''\<rparr>"

section \<open>Segment derivation: \<^verbatim>\<open>calculateNonSilentSegments\<close>\<close>

text \<open>
  The loop \<^verbatim>\<open>for i := 0; i < len(silences)-1; i++\<close> over the adjacent pairs of
  silences, with the slice being appended to as an accumulator. The bound is computed on
  Go's signed \<^verbatim>\<open>int\<close>, as in the source. The constant \<^verbatim>\<open>0.1\<close> of the source is the
  \<^verbatim>\<open>float64\<close> nearest to one tenth.
\<close>

function middleSegments :: "segment list \<Rightarrow> Config \<Rightarrow> nat \<Rightarrow> segment list \<Rightarrow> segment list" where
  "middleSegments silences cfg i songSegments =
     (if int i < int (length silences) - 1 then
        (let st = end' (silences ! i);
             en = start (silences ! (i + 1))
         in middleSegments silences cfg (i + 1)
              (if f64_ge (f64_sub en st) (MinSongLength cfg)
               then songSegments @ [\<lparr>start = st, end' = en\<rparr>]
               else songSegments))
      else songSegments)"
  by pat_completeness auto
termination
  by (relation "measure (\<lambda>(silences, cfg, i, songSegments). length silences - i)") auto

declare middleSegments.simps [simp del]

definition calculateNonSilentSegments :: "segment list \<Rightarrow> float64 \<Rightarrow> Config \<Rightarrow> segment list" where
  "calculateNonSilentSegments silences totalDuration cfg =
     (let songSegments = [];
          lastEndTime = Fin 0.0
      in if length silences = 0 then songSegments
         else
           (let st = lastEndTime;
                en = start (silences ! 0);
                songSegments =
                  (if f64_ge (f64_sub en st) (MinSongLength cfg)
                   then songSegments @ [\<lparr>start = st, end' = en\<rparr>]
                   else songSegments);
                songSegments = middleSegments silences cfg 0 songSegments;
                lastSilenceEnd = end' (silences ! (length silences - 1));
                st = lastSilenceEnd;
                en = totalDuration
            in if f64_gt (f64_sub en st) (round64 0.1) \<and> f64_ge (f64_sub en st) (MinSongLength cfg)
               then songSegments @ [\<lparr>start = st, end' = en\<rparr>]
               else songSegments))"

text \<open>
  Steps 8 and 9 of \<^verbatim>\<open>main\<close>: the segments handed to the export step. The deriver is
  called first; when no silence was detected its (empty) result is replaced by the whole
  file, provided the file is long enough.
\<close>

definition main_songSegments :: "segment list \<Rightarrow> float64 \<Rightarrow> Config \<Rightarrow> segment list" where
  "main_songSegments silences totalDuration cfg =
     (let songSegments = calculateNonSilentSegments silences totalDuration cfg
      in if length silences = 0 then
           (if f64_ge totalDuration (MinSongLength cfg)
            then [\<lparr>start = Fin 0, end' = totalDuration\<rparr>]
            else songSegments)
         else songSegments)"

section \<open>The candidates of the specification\<close>

text \<open>
  The specification describes the result through three kinds of candidate intervals and a
  length filter. These definitions follow its words; the theorems below compare them with
  the code. The length of an interval is \<open>end - start\<close> as \<^verbatim>\<open>float64\<close> subtraction computes
  it, which is the number the code compares.
\<close>

definition seg_length :: "segment \<Rightarrow> float64" where
  "seg_length s = f64_sub (end' s) (start s)"

definition leadingCandidate :: "segment list \<Rightarrow> segment" where
  "leadingCandidate silences = \<lparr>start = Fin 0, end' = start (silences ! 0)\<rparr>"

definition middleCandidate :: "segment list \<Rightarrow> nat \<Rightarrow> segment" where
  "middleCandidate silences i = \<lparr>start = end' (silences ! i), end' = start (silences ! (i + 1))\<rparr>"

definition trailingCandidate :: "segment list \<Rightarrow> float64 \<Rightarrow> segment" where
  "trailingCandidate silences totalDuration = \<lparr>start = end' (last silences), end' = totalDuration\<rparr>"

definition keep_if :: "bool \<Rightarrow> segment \<Rightarrow> segment list" where
  "keep_if ok s = (if ok then [s] else [])"

definition leadingPart :: "segment list \<Rightarrow> Config \<Rightarrow> segment list" where
  "leadingPart silences cfg =
     keep_if (f64_ge (seg_length (leadingCandidate silences)) (MinSongLength cfg))
       (leadingCandidate silences)"

definition middlePart :: "segment list \<Rightarrow> Config \<Rightarrow> nat \<Rightarrow> segment list" where
  "middlePart silences cfg i =
     keep_if (f64_ge (seg_length (middleCandidate silences i)) (MinSongLength cfg))
       (middleCandidate silences i)"

definition trailingPart :: "segment list \<Rightarrow> float64 \<Rightarrow> Config \<Rightarrow> segment list" where
  "trailingPart silences totalDuration cfg =
     keep_if (f64_gt (seg_length (trailingCandidate silences totalDuration)) (round64 0.1)
              \<and> f64_ge (seg_length (trailingCandidate silences totalDuration)) (MinSongLength cfg))
       (trailingCandidate silences totalDuration)"

text \<open>
  Order and disjointness of interval lists. A silence list is \<open>ordered\<close> when it is ascending
  by start, pairwise non-overlapping in the sense that every interval ends no later than
  any later interval begins, and every interval satisfies \<open>0 \<le> start \<le> end\<close>. An interval
  is the closed-open span \<open>[start, end)\<close> of the time line, a set of real numbers.
\<close>

definition ascending_by_start :: "segment list \<Rightarrow> bool" where
  "ascending_by_start segs = sorted_wrt (\<lambda>a b. f64_le (start a) (start b)) segs"

definition non_overlapping :: "segment list \<Rightarrow> bool" where
  "non_overlapping segs = sorted_wrt (\<lambda>a b. f64_le (end' a) (start b)) segs"

definition ordered_silences :: "segment list \<Rightarrow> bool" where
  "ordered_silences silences =
     (ascending_by_start silences \<and> non_overlapping silences
      \<and> list_all (\<lambda>s. f64_le (Fin 0) (start s) \<and> f64_le (start s) (end' s)) silences)"

definition silences_within :: "segment list \<Rightarrow> float64 \<Rightarrow> bool" where
  "silences_within silences totalDuration = list_all (\<lambda>s. f64_le (end' s) totalDuration) silences"

definition span :: "segment \<Rightarrow> real set" where
  "span s = {t. f64_le (start s) (Fin t) \<and> f64_lt (Fin t) (end' s)}"


section \<open>Configuration: \<^verbatim>\<open>loadConfig\<close>\<close>

text \<open>
  The configuration file as \<^verbatim>\<open>encoding/json\<close> sees it: for each key named by a struct tag of
  \<^verbatim>\<open>Config\<close>, the value the JSON object gives it, or \<open>None\<close> when the key is absent.
\<close>

record json_config =
  input_file :: "string option"
  min_silence_duration :: "float64 option"
  silence_threshold :: "string option"
  min_song_length :: "float64 option"
  output_prefix :: "string option"
  output_dir :: "string option"
  upload_to_drive :: "bool option"
  rclone_remote :: "string option"
  drive_subfolder :: "string option"
  setlist_file :: "string option"

text \<open>
  What \<^verbatim>\<open>os.ReadFile\<close> and \<^verbatim>\<open>json.Unmarshal\<close> can find at a path: nothing (the path is
  outside the domain of the file system), a file that cannot be read, bytes that do not
  decode into \<^verbatim>\<open>Config\<close>, or a JSON object. \<^verbatim>\<open>NotExist\<close> is the error for which
  \<^verbatim>\<open>os.IsNotExist\<close> holds.
\<close>

datatype file_entry = Unreadable | Malformed | JsonObject json_config

type_synonym file_system = "string \<rightharpoonup> file_entry"

datatype load_error = NotExist | OtherError

text \<open>
  \<^verbatim>\<open>var fileConfig Config\<close> starts as Go's zero value; \<^verbatim>\<open>json.Unmarshal\<close> stores every key
  that is present into the field carrying its tag and leaves the other fields alone.
\<close>

definition zeroConfig :: Config where
  "zeroConfig =
     \<lparr>InputFile = '''', MinSilenceDur = Fin 0, SilenceThreshold = '''', MinSongLength = Fin 0,
      OutputPrefix = '''', OutputDir = '''', UploadToDrive = False, RcloneRemote = '''',
      DriveSubfolder = '''', SetlistFile = ''''\<rparr>"

definition json_Unmarshal :: "json_config \<Rightarrow> Config \<Rightarrow> Config" where
  "json_Unmarshal obj c =
     \<lparr>InputFile = (case input_file obj of None \<Rightarrow> InputFile c | Some v \<Rightarrow> v),
      MinSilenceDur = (case min_silence_duration obj of None \<Rightarrow> MinSilenceDur c | Some v \<Rightarrow> v),
      SilenceThreshold = (case silence_threshold obj of None \<Rightarrow> SilenceThreshold c | Some v \<Rightarrow> v),
      MinSongLength = (case min_song_length obj of None \<Rightarrow> MinSongLength c | Some v \<Rightarrow> v),
      OutputPrefix = (case output_prefix obj of None \<Rightarrow> OutputPrefix c | Some v \<Rightarrow> v),
      OutputDir = (case output_dir obj of None \<Rightarrow> OutputDir c | Some v \<Rightarrow> v),
      UploadToDrive = (case upload_to_drive obj of None \<Rightarrow> UploadToDrive c | Some v \<Rightarrow> v),
      RcloneRemote = (case rclone_remote obj of None \<Rightarrow> RcloneRemote c | Some v \<Rightarrow> v),
      DriveSubfolder = (case drive_subfolder obj of None \<Rightarrow> DriveSubfolder c | Some v \<Rightarrow> v),
      SetlistFile = (case setlist_file obj of None \<Rightarrow> SetlistFile c | Some v \<Rightarrow> v)\<rparr>"

definition loadConfigFromFile :: "file_system \<Rightarrow> string \<Rightarrow> load_error + Config" where
  "loadConfigFromFile fs path =
     (let fileConfig = zeroConfig
      in case fs path of
           None \<Rightarrow> Inl NotExist
         | Some Unreadable \<Rightarrow> Inl OtherError
         | Some Malformed \<Rightarrow> Inl OtherError
         | Some (JsonObject obj) \<Rightarrow> Inr (json_Unmarshal obj fileConfig))"

text \<open>
  The global flag variables, and their values after \<^verbatim>\<open>defineFlags\<close> (before parsing): each
  flag defaults to the corresponding field of \<^verbatim>\<open>defaultConfig\<close>.
\<close>

record flag_vars =
  configFilePath :: string
  cliInput :: string
  cliDuration :: float64
  cliThreshold :: string
  cliMinSongLength :: float64
  cliPrefix :: string
  cliOutput :: string
  cliUpload :: bool
  cliRemote :: string
  cliSubfolder :: string
  cliSetlistFile :: string

definition defineFlags :: flag_vars where
  "defineFlags =
     \<lparr>configFilePath = ''config.json'',
      cliInput = InputFile defaultConfig,
      cliDuration = MinSilenceDur defaultConfig,
      cliThreshold = SilenceThreshold defaultConfig,
      cliMinSongLength = MinSongLength defaultConfig,
      cliPrefix = OutputPrefix defaultConfig,
      cliOutput = OutputDir defaultConfig,
      cliUpload = UploadToDrive defaultConfig,
      cliRemote = RcloneRemote defaultConfig,
      cliSubfolder = DriveSubfolder defaultConfig,
      cliSetlistFile = SetlistFile defaultConfig\<rparr>"

text \<open>
  \<^verbatim>\<open>flag.Visit\<close> calls its argument for the flags that were set on the command line, and
  only for those; \<open>visited\<close> lists their names. The callback fills the map
  \<^verbatim>\<open>userSetFlags\<close>; indexing a Go map at a missing key gives \<^verbatim>\<open>false\<close>.
\<close>

definition flag_Visit :: "string list \<Rightarrow> (string \<rightharpoonup> bool)" where
  "flag_Visit visited = fold (\<lambda>name userSetFlags. userSetFlags(name \<mapsto> True)) visited Map.empty"

definition map_index :: "(string \<rightharpoonup> bool) \<Rightarrow> string \<Rightarrow> bool" where
  "map_index m k = (case m k of None \<Rightarrow> False | Some b \<Rightarrow> b)"

text \<open>
  \<^verbatim>\<open>loadConfig\<close>, in its three steps: the defaults, the merge of the parsed file (lines
  91 to 120), the override by the flags that were set (lines 131 to 160). The error result
  of \<^verbatim>\<open>loadConfig\<close> is always \<^verbatim>\<open>nil\<close> and the warning it logs for an unparsable file does
  not change the configuration, so the model returns the configuration alone.
\<close>

definition mergeFileConfig :: "Config \<Rightarrow> Config \<Rightarrow> Config" where
  "mergeFileConfig cfg fileConfig =
     (let cfg = (if InputFile fileConfig \<noteq> '''' then cfg\<lparr>InputFile := InputFile fileConfig\<rparr> else cfg);
          cfg = (if MinSilenceDur fileConfig \<noteq> Fin 0.0
                 then cfg\<lparr>MinSilenceDur := MinSilenceDur fileConfig\<rparr> else cfg);
          cfg = (if SilenceThreshold fileConfig \<noteq> ''''
                 then cfg\<lparr>SilenceThreshold := SilenceThreshold fileConfig\<rparr> else cfg);
          cfg = (if MinSongLength fileConfig \<noteq> Fin 0.0
                 then cfg\<lparr>MinSongLength := MinSongLength fileConfig\<rparr> else cfg);
          cfg = (if OutputPrefix fileConfig \<noteq> ''''
                 then cfg\<lparr>OutputPrefix := OutputPrefix fileConfig\<rparr> else cfg);
          cfg = (if OutputDir fileConfig \<noteq> '''' then cfg\<lparr>OutputDir := OutputDir fileConfig\<rparr> else cfg);
          cfg = (if UploadToDrive fileConfig
                 then cfg\<lparr>UploadToDrive := UploadToDrive fileConfig\<rparr> else cfg);
          cfg = (if RcloneRemote fileConfig \<noteq> ''''
                 then cfg\<lparr>RcloneRemote := RcloneRemote fileConfig\<rparr> else cfg);
          cfg = (if DriveSubfolder fileConfig \<noteq> ''''
                 then cfg\<lparr>DriveSubfolder := DriveSubfolder fileConfig\<rparr> else cfg);
          cfg = (if SetlistFile fileConfig \<noteq> ''''
                 then cfg\<lparr>SetlistFile := SetlistFile fileConfig\<rparr> else cfg)
      in cfg)"

definition overrideWithFlags :: "Config \<Rightarrow> flag_vars \<Rightarrow> (string \<rightharpoonup> bool) \<Rightarrow> Config" where
  "overrideWithFlags cfg cli userSetFlags =
     (let cfg = (if map_index userSetFlags ''input'' then cfg\<lparr>InputFile := cliInput cli\<rparr> else cfg);
          cfg = (if map_index userSetFlags ''duration''
                 then cfg\<lparr>MinSilenceDur := cliDuration cli\<rparr> else cfg);
          cfg = (if map_index userSetFlags ''threshold''
                 then cfg\<lparr>SilenceThreshold := cliThreshold cli\<rparr> else cfg);
          cfg = (if map_index userSetFlags ''minsonglength''
                 then cfg\<lparr>MinSongLength := cliMinSongLength cli\<rparr> else cfg);
          cfg = (if map_index userSetFlags ''prefix'' then cfg\<lparr>OutputPrefix := cliPrefix cli\<rparr> else cfg);
          cfg = (if map_index userSetFlags ''output'' then cfg\<lparr>OutputDir := cliOutput cli\<rparr> else cfg);
          cfg = (if map_index userSetFlags ''upload'' then cfg\<lparr>UploadToDrive := cliUpload cli\<rparr> else cfg);
          cfg = (if map_index userSetFlags ''remote'' then cfg\<lparr>RcloneRemote := cliRemote cli\<rparr> else cfg);
          cfg = (if map_index userSetFlags ''subfolder''
                 then cfg\<lparr>DriveSubfolder := cliSubfolder cli\<rparr> else cfg);
          cfg = (if map_index userSetFlags ''setlist''
                 then cfg\<lparr>SetlistFile := cliSetlistFile cli\<rparr> else cfg)
      in cfg)"

definition loadConfig :: "file_system \<Rightarrow> flag_vars \<Rightarrow> string list \<Rightarrow> Config" where
  "loadConfig fs cli visited =
     (let cfg = defaultConfig;
          cfg = (case loadConfigFromFile fs (configFilePath cli) of
                   Inr fileConfig \<Rightarrow> mergeFileConfig cfg fileConfig
                 | Inl err \<Rightarrow> cfg);
          userSetFlags = flag_Visit visited
      in overrideWithFlags cfg cli userSetFlags)"

text \<open>
  For the statement of claim C10: the JSON object with every key whose value is the zero
  value of its type (\<open>0\<close>, the empty string, \<open>false\<close>) removed, and the JSON object with no
  key at all.
\<close>

definition absent_if_zero :: "json_config \<Rightarrow> json_config" where
  "absent_if_zero obj =
     \<lparr>input_file = (if input_file obj = Some '''' then None else input_file obj),
      min_silence_duration = (if min_silence_duration obj = Some (Fin 0) then None else min_silence_duration obj),
      silence_threshold = (if silence_threshold obj = Some '''' then None else silence_threshold obj),
      min_song_length = (if min_song_length obj = Some (Fin 0) then None else min_song_length obj),
      output_prefix = (if output_prefix obj = Some '''' then None else output_prefix obj),
      output_dir = (if output_dir obj = Some '''' then None else output_dir obj),
      upload_to_drive = (if upload_to_drive obj = Some False then None else upload_to_drive obj),
      rclone_remote = (if rclone_remote obj = Some '''' then None else rclone_remote obj),
      drive_subfolder = (if drive_subfolder obj = Some '''' then None else drive_subfolder obj),
      setlist_file = (if setlist_file obj = Some '''' then None else setlist_file obj)\<rparr>"

definition json_empty :: json_config where
  "json_empty =
     \<lparr>input_file = None, min_silence_duration = None, silence_threshold = None,
      min_song_length = None, output_prefix = None, output_dir = None,
      upload_to_drive = None, rclone_remote = None, drive_subfolder = None,
      setlist_file = None\<rparr>"

definition json_zero :: json_config where
  "json_zero =
     \<lparr>input_file = Some '''', min_silence_duration = Some (Fin 0), silence_threshold = Some '''',
      min_song_length = Some (Fin 0), output_prefix = Some '''', output_dir = Some '''',
      upload_to_drive = Some False, rclone_remote = Some '''', drive_subfolder = Some '''',
      setlist_file = Some ''''\<rparr>"

section \<open>Renaming from the setlist: \<^verbatim>\<open>sanitizeFilename\<close>, \<^verbatim>\<open>renameFilesFromSetlist\<close>\<close>

text \<open>
  Go strings are byte sequences, modelled as \<open>string\<close>. \<^verbatim>\<open>strings.TrimSpace\<close> removes
  leading and trailing white space as Unicode defines it: the six ASCII space characters
  and the code points U+0085, U+00A0, U+1680, U+2000 to U+200A, U+2028, U+2029, U+202F,
  U+205F and U+3000, listed here by their UTF-8 encodings. Trimming on the left strips
  encodings of such code points while the string starts with one; trimming on the right is
  the same on the reversed string.
\<close>

definition asciiSpace :: "char list" where
  "asciiSpace = [CHR 0x09, CHR 0x0A, CHR 0x0B, CHR 0x0C, CHR 0x0D, CHR 0x20]"

definition unicodeSpace :: "string list" where
  "unicodeSpace =
     [[CHR 0xC2, CHR 0x85], [CHR 0xC2, CHR 0xA0], [CHR 0xE1, CHR 0x9A, CHR 0x80],
      [CHR 0xE2, CHR 0x80, CHR 0x80], [CHR 0xE2, CHR 0x80, CHR 0x81],
      [CHR 0xE2, CHR 0x80, CHR 0x82], [CHR 0xE2, CHR 0x80, CHR 0x83],
      [CHR 0xE2, CHR 0x80, CHR 0x84], [CHR 0xE2, CHR 0x80, CHR 0x85],
      [CHR 0xE2, CHR 0x80, CHR 0x86], [CHR 0xE2, CHR 0x80, CHR 0x87],
      [CHR 0xE2, CHR 0x80, CHR 0x88], [CHR 0xE2, CHR 0x80, CHR 0x89],
      [CHR 0xE2, CHR 0x80, CHR 0x8A], [CHR 0xE2, CHR 0x80, CHR 0xA8],
      [CHR 0xE2, CHR 0x80, CHR 0xA9], [CHR 0xE2, CHR 0x80, CHR 0xAF],
      [CHR 0xE2, CHR 0x81, CHR 0x9F], [CHR 0xE3, CHR 0x80, CHR 0x80]]"

definition spaceRunes :: "string list" where
  "spaceRunes = map (\<lambda>c. [c]) asciiSpace @ unicodeSpace"

function trimLeftRunes :: "string list \<Rightarrow> string \<Rightarrow> string" where
  "trimLeftRunes runes s =
     (case find (\<lambda>r. r \<noteq> [] \<and> take (length r) s = r) runes of
        None \<Rightarrow> s
      | Some r \<Rightarrow> trimLeftRunes runes (drop (length r) s))"
  by pat_completeness auto
termination
proof (relation "measure (\<lambda>(runes, s). length s)")
  show "wf (measure (\<lambda>(runes, s). length s))" by simp
next
  fix runes :: "string list" and s r :: string
  assume "find (\<lambda>r. r \<noteq> [] \<and> take (length r) s = r) runes = Some r"
  then have r: "r \<noteq> []" "take (length r) s = r"
    by (auto simp: find_Some_iff)
  then have "s \<noteq> []" by auto
  with r(1) show "((runes, drop (length r) s), (runes, s)) \<in> measure (\<lambda>(runes, s). length s)"
    by simp
qed

declare trimLeftRunes.simps [simp del]

definition strings_TrimSpace :: "string \<Rightarrow> string" where
  "strings_TrimSpace s =
     rev (trimLeftRunes (map rev spaceRunes) (rev (trimLeftRunes spaceRunes s)))"

text \<open>
  The regular expression \<^verbatim>\<open>[^\w\s\-]\<close>: in Go's syntax \<^verbatim>\<open>\w\<close> is \<^verbatim>\<open>[0-9A-Za-z_]\<close> and
  \<^verbatim>\<open>\s\<close> is tab, line feed, form feed, carriage return and space. Every byte of a
  multi-byte or invalid UTF-8 sequence belongs to a code point outside these classes, so
  replacing all matches by the empty string keeps exactly the bytes that do not match.
\<close>

definition word_char :: "char \<Rightarrow> bool" where
  "word_char c = (c \<in> set ''0123456789ABCDEFGHIJKLMNOPQRSTUVWXYZabcdefghijklmnopqrstuvwxyz_'')"

definition space_char :: "char \<Rightarrow> bool" where
  "space_char c = (c \<in> set [CHR 0x09, CHR 0x0A, CHR 0x0C, CHR 0x0D, CHR 0x20])"

definition invalidChars :: "char \<Rightarrow> bool" where
  "invalidChars c = (\<not> (word_char c \<or> space_char c \<or> c = CHR ''-''))"

definition sanitizeFilename :: "string \<Rightarrow> string" where
  "sanitizeFilename name =
     (let name = strings_TrimSpace name;
          name = filter (\<lambda>c. \<not> invalidChars c) name;
          name = map (\<lambda>c. if c = CHR '' '' then CHR ''_'' else c) name;
          name = (if name = '''' then ''Untitled_Song'' else name)
      in name)"

text \<open>
  \<^verbatim>\<open>fmt.Sprintf("%02d", n)\<close> for a non-negative \<open>n\<close>: the decimal digits, padded with
  zeros on the left to at least two characters.
\<close>

fun decimal :: "nat \<Rightarrow> string" where
  "decimal n = (if n < 10 then [''0123456789'' ! n]
                else decimal (n div 10) @ [''0123456789'' ! (n mod 10)])"

declare decimal.simps [simp del]

definition sprintf_02d :: "nat \<Rightarrow> string" where
  "sprintf_02d n = (let ds = decimal n in replicate (2 - length ds) (CHR ''0'') @ ds)"

text \<open>
  \<^verbatim>\<open>filepath.Ext\<close>, \<^verbatim>\<open>filepath.Clean\<close>, \<^verbatim>\<open>filepath.Dir\<close> and \<^verbatim>\<open>filepath.Join\<close> with the
  separator \<open>/\<close>. \<^verbatim>\<open>Ext\<close> scans backwards for a dot and stops at a separator.
  \<^verbatim>\<open>Clean\<close> drops empty and \<open>.\<close> elements, lets \<open>..\<close> remove the element before it (at
  the root it is dropped, at the start of a relative path it is kept), and turns an empty
  result into \<open>.\<close>.
\<close>

fun ext_scan :: "string \<Rightarrow> string \<Rightarrow> string" where
  "ext_scan [] acc = ''''"
| "ext_scan (c # cs) acc =
     (if c = CHR ''/'' then ''''
      else if c = CHR ''.'' then c # acc
      else ext_scan cs (c # acc))"

definition filepath_Ext :: "string \<Rightarrow> string" where
  "filepath_Ext path = ext_scan (rev path) []"

fun split_sep :: "string \<Rightarrow> string list" where
  "split_sep [] = [[]]"
| "split_sep (c # cs) =
     (if c = CHR ''/'' then [] # split_sep cs
      else (case split_sep cs of
              [] \<Rightarrow> [[c]]
            | e # es \<Rightarrow> (c # e) # es))"

fun join_sep :: "string list \<Rightarrow> string" where
  "join_sep [] = ''''"
| "join_sep [e] = e"
| "join_sep (e # f # es) = e @ ''/'' @ join_sep (f # es)"

fun clean_elems :: "bool \<Rightarrow> string list \<Rightarrow> string list \<Rightarrow> string list" where
  "clean_elems rooted [] out = rev out"
| "clean_elems rooted (e # es) out =
     (if e = '''' \<or> e = ''.'' then clean_elems rooted es out
      else if e = ''..'' then
        (case out of
           e1 # below \<Rightarrow>
             if e1 \<noteq> ''..'' then clean_elems rooted es below
             else clean_elems rooted es (''..'' # out)
         | [] \<Rightarrow>
             if rooted then clean_elems rooted es out
             else clean_elems rooted es [''..''])
      else clean_elems rooted es (e # out))"

definition filepath_Clean :: "string \<Rightarrow> string" where
  "filepath_Clean path =
     (if path = '''' then ''.''
      else
        let rooted = (hd path = CHR ''/'');
            out = join_sep (clean_elems rooted (split_sep path) []);
            out = (if rooted then CHR ''/'' # out else out)
        in if out = '''' then ''.'' else out)"

definition filepath_Dir :: "string \<Rightarrow> string" where
  "filepath_Dir path = filepath_Clean (rev (dropWhile (\<lambda>c. c \<noteq> CHR ''/'') (rev path)))"

fun filepath_Join :: "string list \<Rightarrow> string" where
  "filepath_Join [] = ''''"
| "filepath_Join (e # es) =
     (if e \<noteq> '''' then filepath_Clean (join_sep (e # es)) else filepath_Join es)"

text \<open>
  The loop of \<^verbatim>\<open>renameFilesFromSetlist\<close> over the exported files. The file system is a
  state of any type \<open>'fs\<close>, and \<^verbatim>\<open>os.Rename\<close> is a parameter that either fails (\<open>None\<close>,
  the state unchanged) or returns the new state. The loop returns the final state and one
  entry per call of \<^verbatim>\<open>os.Rename\<close>, in order, as the two log lines of the source record
  them.
\<close>

datatype rename_log = RenameError string string | Renamed string string

fun renameLoop ::
  "('fs \<Rightarrow> string \<Rightarrow> string \<Rightarrow> 'fs option) \<Rightarrow> string list \<Rightarrow> nat \<Rightarrow> string list \<Rightarrow> 'fs
     \<Rightarrow> 'fs \<times> rename_log list" where
  "renameLoop os_Rename songTitles i [] fs = (fs, [])"
| "renameLoop os_Rename songTitles i (oldFilePath # rest) fs =
     (if i \<ge> length songTitles then (fs, [])
      else
        (let dir = filepath_Dir oldFilePath;
             ext = filepath_Ext oldFilePath;
             newSongName = sanitizeFilename (songTitles ! i);
             newFileName = sprintf_02d (i + 1) @ '' - '' @ newSongName @ ext;
             newFilePath = filepath_Join [dir, newFileName]
         in case os_Rename fs oldFilePath newFilePath of
              None \<Rightarrow>
                (let (fs', entries) = renameLoop os_Rename songTitles (i + 1) rest fs
                 in (fs', RenameError oldFilePath newFilePath # entries))
            | Some fs1 \<Rightarrow>
                (let (fs', entries) = renameLoop os_Rename songTitles (i + 1) rest fs1
                 in (fs', Renamed oldFilePath newFilePath # entries))))"

text \<open>
  The setlist file as read by \<^verbatim>\<open>os.Open\<close> and \<^verbatim>\<open>bufio.Scanner\<close>: it cannot be opened, the
  scanner reports an error, or it yields lines, of which the empty ones are skipped.
\<close>

datatype setlist_read = OpenError | ScanError | Lines "string list"

definition renameFilesFromSetlist ::
  "('fs \<Rightarrow> string \<Rightarrow> string \<Rightarrow> 'fs option) \<Rightarrow> (string \<Rightarrow> setlist_read) \<Rightarrow> Config
     \<Rightarrow> string list \<Rightarrow> 'fs \<Rightarrow> 'fs \<times> rename_log list" where
  "renameFilesFromSetlist os_Rename os_Open cfg exportedFiles fs =
     (case os_Open (SetlistFile cfg) of
        OpenError \<Rightarrow> (fs, [])
      | ScanError \<Rightarrow> (fs, [])
      | Lines ls \<Rightarrow>
          (let songTitles = filter (\<lambda>title. title \<noteq> '''') ls
           in renameLoop os_Rename songTitles 0 exportedFiles fs))"

text \<open>
  The old and the new path of a log entry, and the name and path the loop computes for
  the file at position \<open>i\<close> from its title.
\<close>

fun rename_source :: "rename_log \<Rightarrow> string" where
  "rename_source (RenameError old new) = old"
| "rename_source (Renamed old new) = old"

fun rename_target :: "rename_log \<Rightarrow> string" where
  "rename_target (RenameError old new) = new"
| "rename_target (Renamed old new) = new"

definition newFileName :: "nat \<Rightarrow> string \<Rightarrow> string \<Rightarrow> string" where
  "newFileName i oldFilePath title =
     sprintf_02d (i + 1) @ '' - '' @ sanitizeFilename title @ filepath_Ext oldFilePath"

definition newFilePath :: "nat \<Rightarrow> string \<Rightarrow> string \<Rightarrow> string" where
  "newFilePath i oldFilePath title =
     filepath_Join [filepath_Dir oldFilePath, newFileName i oldFilePath title]"

text \<open>
  The rename step in the words of the specification. The files and the titles are paired
  by position, which stops at the shorter list; \<open>positional_pairs\<close> lists, for each pair,
  the old path and the path built from the title. \<open>attempt_renames\<close> then tries the pairs
  in order, each exactly once: a rename that fails leaves the file system as it was and
  the next pair is tried all the same, a rename that succeeds hands its new state on.
\<close>

definition positional_pairs :: "string list \<Rightarrow> string list \<Rightarrow> (string \<times> string) list" where
  "positional_pairs files titles =
     map (\<lambda>(i, old, title). (old, newFilePath i old title))
       (zip [0..<length files] (zip files titles))"

fun attempt_renames ::
  "('fs \<Rightarrow> string \<Rightarrow> string \<Rightarrow> 'fs option) \<Rightarrow> (string \<times> string) list \<Rightarrow> 'fs
     \<Rightarrow> 'fs \<times> rename_log list" where
  "attempt_renames os_Rename [] fs = (fs, [])"
| "attempt_renames os_Rename ((old, new) # rest) fs =
     (case os_Rename fs old new of
        None \<Rightarrow>
          (let (fs', entries) = attempt_renames os_Rename rest fs
           in (fs', RenameError old new # entries))
      | Some fs1 \<Rightarrow>
          (let (fs', entries) = attempt_renames os_Rename rest fs1
           in (fs', Renamed old new # entries)))"

text \<open>
  An example file system for evaluating the loop: the list of the paths that exist.
  Renaming fails when the old path does not exist.
\<close>

definition simple_rename :: "string list \<Rightarrow> string \<Rightarrow> string \<Rightarrow> string list option" where
  "simple_rename fs old new =
     (if old \<in> set fs then Some (new # removeAll new (removeAll old fs)) else None)"

text \<open>
  The sanitising of a title in the words of the specification: trim, strip the characters
  outside letters, digits, white space, hyphen and underscore, turn spaces into
  underscores, and replace an empty result by the placeholder. Letters and digits are the
  ASCII ones and white space is the class \<^verbatim>\<open>\s\<close> above.
\<close>

definition is_letter :: "char \<Rightarrow> bool" where
  "is_letter c = (c \<in> set ''ABCDEFGHIJKLMNOPQRSTUVWXYZabcdefghijklmnopqrstuvwxyz'')"

definition is_digit :: "char \<Rightarrow> bool" where
  "is_digit c = (c \<in> set ''0123456789'')"

definition spec_sanitize :: "string \<Rightarrow> string" where
  "spec_sanitize title =
     (let trimmed = strings_TrimSpace title;
          stripped = filter (\<lambda>c. is_letter c \<or> is_digit c \<or> space_char c
                                  \<or> c = CHR ''-'' \<or> c = CHR ''_'') trimmed;
          underscored = map (\<lambda>c. if c = CHR '' '' then CHR ''_'' else c) stripped
      in if underscored = '''' then ''Untitled_Song'' else underscored)"


section \<open>Properties of \<^verbatim>\<open>float64\<close> comparisons\<close>

lemma f64_le_trans: "f64_le a b \<Longrightarrow> f64_le b c \<Longrightarrow> f64_le a c"
  by (cases a; cases b; cases c) auto

lemma f64_lt_le_trans: "f64_lt a b \<Longrightarrow> f64_le b c \<Longrightarrow> f64_lt a c"
  by (cases a; cases b; cases c) auto

lemma f64_le_lt_trans: "f64_le a b \<Longrightarrow> f64_lt b c \<Longrightarrow> f64_lt a c"
  by (cases a; cases b; cases c) auto

lemma f64_lt_irrefl: "\<not> f64_lt a a"
  by (cases a) auto

lemma f64_le_refl_right: "f64_le a b \<Longrightarrow> f64_le b b"
  by (cases a; cases b) auto

lemma f64_le_refl_left: "f64_le a b \<Longrightarrow> f64_le a a"
  by (cases a; cases b) auto

lemma f64_le_not_lt: "f64_le a b \<Longrightarrow> \<not> f64_lt b a"
  by (cases a; cases b) auto

lemmas round64_eval =
  round64_def halve_to_53_bits.simps double_to_53_bits.simps round_half_even_def pow2_def Let_def

section \<open>Properties of the segment derivation\<close>

lemma middleSegments_unfold:
  "middleSegments silences cfg i acc =
     acc @ concat (map (middlePart silences cfg) [i..<length silences - 1])"
proof (induction silences cfg i acc rule: middleSegments.induct)
  case (1 silences cfg i acc)
  show ?case
  proof (cases "int i < int (length silences) - 1")
    case True
    then have lt: "i < length silences - 1" by linarith
    note IH = "1.IH" [OF True refl refl]
    have step: "middleSegments silences cfg i acc =
        middleSegments silences cfg (i + 1)
          (if f64_ge (f64_sub (start (silences ! (i + 1))) (end' (silences ! i))) (MinSongLength cfg)
           then acc @ [\<lparr>start = end' (silences ! i), end' = start (silences ! (i + 1))\<rparr>]
           else acc)"
      using True by (subst middleSegments.simps) (simp add: Let_def)
    have mp: "middlePart silences cfg i =
        (if f64_ge (f64_sub (start (silences ! (i + 1))) (end' (silences ! i))) (MinSongLength cfg)
         then [\<lparr>start = end' (silences ! i), end' = start (silences ! (i + 1))\<rparr>] else [])"
      by (simp add: middlePart_def keep_if_def middleCandidate_def seg_length_def)
    have "middleSegments silences cfg i acc = (acc @ middlePart silences cfg i)
                 @ concat (map (middlePart silences cfg) [i + 1..<length silences - 1])"
    proof (cases "f64_ge (f64_sub (start (silences ! (i + 1))) (end' (silences ! i))) (MinSongLength cfg)")
      case keep: True
      with IH step mp show ?thesis
        by simp
    next
      case drop: False
      with IH step mp show ?thesis
        by simp
    qed
    then show ?thesis
      using lt by (simp add: upt_conv_Cons)
  next
    case False
    then have "\<not> i < length silences - 1" by linarith
    with False show ?thesis
      by (subst middleSegments.simps) simp
  qed
qed

lemma calculateNonSilentSegments_unfold:
  assumes "silences \<noteq> []"
  shows "calculateNonSilentSegments silences totalDuration cfg =
           leadingPart silences cfg
           @ concat (map (middlePart silences cfg) [0..<length silences - 1])
           @ trailingPart silences totalDuration cfg"
  using assms
  by (simp add: calculateNonSilentSegments_def middleSegments_unfold leadingPart_def
      trailingPart_def keep_if_def leadingCandidate_def trailingCandidate_def seg_length_def
      last_conv_nth Let_def)

lemma concat_keep_if:
  "concat (map (\<lambda>i. keep_if (P i) (f i)) xs) = map f (filter P xs)"
  by (induction xs) (simp_all add: keep_if_def)

lemma middlePart_eq:
  "middlePart silences cfg =
     (\<lambda>i. keep_if (f64_ge (seg_length (middleCandidate silences i)) (MinSongLength cfg))
            (middleCandidate silences i))"
  by (rule ext) (simp add: middlePart_def)

lemma middle_parts_filter:
  "concat (map (middlePart silences cfg) xs) =
     map (middleCandidate silences)
       (filter (\<lambda>i. f64_ge (seg_length (middleCandidate silences i)) (MinSongLength cfg)) xs)"
  by (simp add: middlePart_eq concat_keep_if)

lemma ordered_silences_nth:
  assumes "ordered_silences silences"
  shows "i < length silences \<Longrightarrow> f64_le (Fin 0) (start (silences ! i))"
    and "i < length silences \<Longrightarrow> f64_le (start (silences ! i)) (end' (silences ! i))"
    and "i < j \<Longrightarrow> j < length silences \<Longrightarrow> f64_le (end' (silences ! i)) (start (silences ! j))"
  using assms
  by (auto simp: ordered_silences_def non_overlapping_def list_all_length sorted_wrt_iff_nth_less)

lemma ordered_silences_end_mono:
  assumes "ordered_silences silences" "i \<le> j" "j < length silences"
  shows "f64_le (end' (silences ! i)) (end' (silences ! j))"
proof (cases "i = j")
  case True
  with ordered_silences_nth(2) [OF assms(1) assms(3)] show ?thesis
    by (simp add: f64_le_refl_right)
next
  case False
  with assms have "i < j" by simp
  from ordered_silences_nth(3) [OF assms(1) this assms(3)]
       ordered_silences_nth(2) [OF assms(1) assms(3)]
  show ?thesis by (rule f64_le_trans)
qed

lemma ordered_silences_start_mono:
  assumes "ordered_silences silences" "i \<le> j" "j < length silences"
  shows "f64_le (start (silences ! i)) (start (silences ! j))"
proof (cases "i = j")
  case True
  with ordered_silences_nth(2) [OF assms(1) assms(3)] show ?thesis
    by (simp add: f64_le_refl_left)
next
  case False
  with assms have lt: "i < j" by simp
  then have "i < length silences" using assms(3) by simp
  from ordered_silences_nth(2) [OF assms(1) this]
       ordered_silences_nth(3) [OF assms(1) lt assms(3)]
  show ?thesis by (rule f64_le_trans)
qed

lemma ordered_silences_end_nonneg:
  assumes "ordered_silences silences" "i < length silences"
  shows "f64_le (Fin 0) (end' (silences ! i))"
  using ordered_silences_nth(1) [OF assms] ordered_silences_nth(2) [OF assms]
  by (rule f64_le_trans)

lemma middle_parts_set:
  assumes "y \<in> set (concat (map (middlePart silences cfg) [0..<length silences - 1]))"
  shows "\<exists>i. i + 1 < length silences \<and> y = middleCandidate silences i"
proof -
  from assms obtain i where i: "i < length silences - 1" "y = middleCandidate silences i"
    unfolding middle_parts_filter by auto
  from i(1) have "i + 1 < length silences" by linarith
  with i(2) show ?thesis by blast
qed

lemma in_output_cases:
  assumes "silences \<noteq> []"
    and "x \<in> set (calculateNonSilentSegments silences totalDuration cfg)"
  shows "x = leadingCandidate silences
         \<or> (\<exists>i. i + 1 < length silences \<and> x = middleCandidate silences i)
         \<or> x = trailingCandidate silences totalDuration"
proof -
  from assms(2) have "x \<in> set (leadingPart silences cfg)
      \<or> x \<in> set (concat (map (middlePart silences cfg) [0..<length silences - 1]))
      \<or> x \<in> set (trailingPart silences totalDuration cfg)"
    unfolding calculateNonSilentSegments_unfold [OF assms(1)] by (simp only: set_append Un_iff)
  then show ?thesis
  proof (elim disjE)
    assume "x \<in> set (leadingPart silences cfg)"
    then show ?thesis by (simp add: leadingPart_def keep_if_def split: if_splits)
  next
    assume "x \<in> set (concat (map (middlePart silences cfg) [0..<length silences - 1]))"
    then show ?thesis using middle_parts_set by blast
  next
    assume "x \<in> set (trailingPart silences totalDuration cfg)"
    then show ?thesis by (simp add: trailingPart_def keep_if_def split: if_splits)
  qed
qed

lemma in_output_long_enough:
  assumes "x \<in> set (calculateNonSilentSegments silences totalDuration cfg)"
  shows "f64_ge (seg_length x) (MinSongLength cfg)"
proof (cases "silences = []")
  case True
  with assms show ?thesis by (simp add: calculateNonSilentSegments_def)
next
  case False
  show ?thesis
    using assms
    unfolding calculateNonSilentSegments_unfold [OF False] middle_parts_filter
    by (auto simp: leadingPart_def trailingPart_def keep_if_def split: if_splits)
qed

lemma middle_parts_length:
  "length (concat (map (middlePart silences cfg) [0..<k])) \<le> k"
proof -
  have "length (filter (\<lambda>i. f64_ge (seg_length (middleCandidate silences i)) (MinSongLength cfg)) [0..<k])
          \<le> length [0..<k]"
    by (rule length_filter_le)
  then show ?thesis by (simp add: middle_parts_filter)
qed

lemma middle_parts_ascending:
  assumes "ordered_silences silences" "k \<le> length silences - 1"
  shows "sorted_wrt (\<lambda>a b. f64_le (start a) (start b)) (concat (map (middlePart silences cfg) [0..<k]))"
proof -
  have "sorted_wrt (\<lambda>i j. f64_le (start (middleCandidate silences i)) (start (middleCandidate silences j))) [0..<k]"
    using assms
    by (auto simp: sorted_wrt_iff_nth_less middleCandidate_def intro!: ordered_silences_end_mono)
  then show ?thesis
    unfolding middle_parts_filter
    by (simp add: sorted_wrt_map sorted_wrt_filter)
qed

lemma output_ascending:
  assumes "ordered_silences silences"
  shows "ascending_by_start (calculateNonSilentSegments silences totalDuration cfg)"
proof (cases "silences = []")
  case True
  then show ?thesis by (simp add: calculateNonSilentSegments_def ascending_by_start_def)
next
  case False
  let ?n = "length silences"
  let ?mid = "concat (map (middlePart silences cfg) [0..<?n - 1])"
  have pos: "0 < ?n" using False by simp
  have mid: "sorted_wrt (\<lambda>a b. f64_le (start a) (start b)) ?mid"
    by (rule middle_parts_ascending [OF assms]) simp
  have mid_set: "\<And>y. y \<in> set ?mid \<Longrightarrow> \<exists>i. i + 1 < ?n \<and> y = middleCandidate silences i"
    by (rule middle_parts_set)
  have lead_mid: "\<And>y. y \<in> set ?mid \<Longrightarrow> f64_le (start (leadingCandidate silences)) (start y)"
  proof -
    fix y assume "y \<in> set ?mid"
    then obtain i where i: "i + 1 < ?n" "y = middleCandidate silences i" using mid_set by blast
    then have "i < ?n" by simp
    from ordered_silences_end_nonneg [OF assms this] i(2)
    show "f64_le (start (leadingCandidate silences)) (start y)"
      by (simp add: leadingCandidate_def middleCandidate_def)
  qed
  have last: "last silences = silences ! (?n - 1)"
    using False by (simp add: last_conv_nth)
  have n1: "?n - 1 < ?n" using pos by simp
  have lead_trail: "f64_le (start (leadingCandidate silences)) (start (trailingCandidate silences totalDuration))"
    using ordered_silences_end_nonneg [OF assms n1]
    by (simp add: leadingCandidate_def trailingCandidate_def last)
  have mid_trail: "\<And>y. y \<in> set ?mid \<Longrightarrow> f64_le (start y) (start (trailingCandidate silences totalDuration))"
  proof -
    fix y assume "y \<in> set ?mid"
    then obtain i where i: "i + 1 < ?n" "y = middleCandidate silences i" using mid_set by blast
    then have "i \<le> ?n - 1" by simp
    from ordered_silences_end_mono [OF assms this n1] i(2)
    show "f64_le (start y) (start (trailingCandidate silences totalDuration))"
      by (simp add: middleCandidate_def trailingCandidate_def last)
  qed
  show ?thesis
    unfolding ascending_by_start_def calculateNonSilentSegments_unfold [OF False]
    using mid lead_mid lead_trail mid_trail
    by (auto simp: sorted_wrt_append leadingPart_def trailingPart_def keep_if_def)
qed

lemma spans_disjoint:
  assumes "f64_le (end' x) (start y)"
  shows "span x \<inter> span y = {}" and "span y \<inter> span x = {}"
proof -
  have "t \<notin> span x \<inter> span y" for t
  proof
    assume "t \<in> span x \<inter> span y"
    then have "f64_lt (Fin t) (end' x)" and "f64_le (start y) (Fin t)"
      by (simp_all add: span_def)
    from f64_lt_le_trans [OF this(1) assms] this(2) show False
      by (simp add: f64_le_not_lt)
  qed
  then show "span x \<inter> span y = {}" by blast
  then show "span y \<inter> span x = {}" by blast
qed

lemma calc_eval:
  "calculateNonSilentSegments (s # ss) totalDuration cfg =
     leadingPart (s # ss) cfg
     @ concat (map (middlePart (s # ss) cfg) [0..<length ss])
     @ trailingPart (s # ss) totalDuration cfg"
  using calculateNonSilentSegments_unfold [of "s # ss" totalDuration cfg] by simp

lemmas candidate_defs =
  leadingPart_def middlePart_def trailingPart_def keep_if_def seg_length_def
  leadingCandidate_def middleCandidate_def trailingCandidate_def


text \<open>
  Claim C1 as stated fails in its last clause ("a negative- or zero-length candidate
  simply fails the filter"): the filter is \<open>end - start \<ge> MinSongLength\<close> and nothing else,
  so with \<^verbatim>\<open>MinSongLength\<close> 0 the zero-length leading candidate \<open>[0, 0)\<close> of the silences
  \<open>[(0,10), (200,210)]\<close> is appended.
\<close>

theorem zero_length_candidate_kept_at_zero_minimum:
  "leadingCandidate [\<lparr>start = Fin 0, end' = Fin 10\<rparr>, \<lparr>start = Fin 200, end' = Fin 210\<rparr>]
     = \<lparr>start = Fin 0, end' = Fin 0\<rparr>
   \<and> seg_length \<lparr>start = Fin 0, end' = Fin 0\<rparr> = Fin 0
   \<and> calculateNonSilentSegments
         [\<lparr>start = Fin 0, end' = Fin 10\<rparr>, \<lparr>start = Fin 200, end' = Fin 210\<rparr>]
         (Fin 300) (defaultConfig\<lparr>MinSongLength := Fin 0\<rparr>)
       = [\<lparr>start = Fin 0, end' = Fin 0\<rparr>, \<lparr>start = Fin 10, end' = Fin 200\<rparr>,
          \<lparr>start = Fin 210, end' = Fin 300\<rparr>]"
  by (simp add: calc_eval candidate_defs upt_conv_Cons round64_eval)

text \<open>
  Claim C1, amended. For a non-empty silence list the output of
  \<^verbatim>\<open>calculateNonSilentSegments\<close> starts with the leading candidate
  \<open>[0, silences[0].start)\<close> exactly when its length \<open>end - start\<close>, as \<^verbatim>\<open>float64\<close>
  subtraction computes it, is at least \<^verbatim>\<open>MinSongLength\<close>, followed, for every adjacent
  pair \<open>i, i+1\<close> in order, by the middle candidate \<open>[silences[i].end, silences[i+1].start)\<close>
  exactly when its length is at least \<^verbatim>\<open>MinSongLength\<close> (so a length equal to the minimum
  is kept); whatever follows is at most the trailing candidate. A candidate of zero or
  negative length fails the filter whenever \<^verbatim>\<open>MinSongLength\<close> is positive. The function
  is total: no input raises an error.
\<close>

theorem leading_middle_kept_iff_long_enough:
  assumes "silences \<noteq> []"
  shows "(\<exists>trailing.
            calculateNonSilentSegments silences totalDuration cfg =
              keep_if (f64_ge (seg_length (leadingCandidate silences)) (MinSongLength cfg))
                (leadingCandidate silences)
              @ concat (map (\<lambda>i. keep_if (f64_ge (seg_length (middleCandidate silences i))
                                               (MinSongLength cfg))
                                    (middleCandidate silences i))
                         [0..<length silences - 1])
              @ trailing
            \<and> (trailing = [] \<or> trailing = [trailingCandidate silences totalDuration]))
         \<and> (\<forall>c. f64_gt (MinSongLength cfg) (Fin 0) \<and> f64_le (seg_length c) (Fin 0) \<longrightarrow>
                keep_if (f64_ge (seg_length c) (MinSongLength cfg)) c = [])"
proof (intro conjI allI impI)
  have "trailingPart silences totalDuration cfg = []
        \<or> trailingPart silences totalDuration cfg = [trailingCandidate silences totalDuration]"
    by (simp add: trailingPart_def keep_if_def)
  then show "\<exists>trailing.
            calculateNonSilentSegments silences totalDuration cfg =
              keep_if (f64_ge (seg_length (leadingCandidate silences)) (MinSongLength cfg))
                (leadingCandidate silences)
              @ concat (map (\<lambda>i. keep_if (f64_ge (seg_length (middleCandidate silences i))
                                               (MinSongLength cfg))
                                    (middleCandidate silences i))
                         [0..<length silences - 1])
              @ trailing
            \<and> (trailing = [] \<or> trailing = [trailingCandidate silences totalDuration])"
    using calculateNonSilentSegments_unfold [OF assms, of totalDuration cfg]
    by (auto simp: leadingPart_def middlePart_eq)
next
  fix c
  assume c: "f64_gt (MinSongLength cfg) (Fin 0) \<and> f64_le (seg_length c) (Fin 0)"
  have "\<not> f64_ge (seg_length c) (MinSongLength cfg)"
  proof
    assume "f64_ge (seg_length c) (MinSongLength cfg)"
    with c have "f64_le (MinSongLength cfg) (Fin 0)" by (blast intro: f64_le_trans)
    with c show False by (simp add: f64_le_not_lt)
  qed
  then show "keep_if (f64_ge (seg_length c) (MinSongLength cfg)) c = []"
    by (simp add: keep_if_def)
qed

text \<open>
  At minimum length 50 the leading candidate of length 40 is dropped, the middle candidate
  of length exactly 50 is kept and the middle candidate \<open>[110, 105)\<close> of negative length is
  dropped. At minimum length 60 the middle candidate \<open>[4.1, 64.1)\<close> is dropped: its
  computed length is \<open>59.99999999999999\<close>.
\<close>

theorem leading_middle_kept_iff_long_enough_witness:
  "[\<lparr>start = Fin 40, end' = Fin 50\<rparr>, \<lparr>start = Fin 100, end' = Fin 110\<rparr>,
    \<lparr>start = Fin 105, end' = Fin 200\<rparr>] \<noteq> []
   \<and> (\<exists>trailing.
         calculateNonSilentSegments
           [\<lparr>start = Fin 40, end' = Fin 50\<rparr>, \<lparr>start = Fin 100, end' = Fin 110\<rparr>,
            \<lparr>start = Fin 105, end' = Fin 200\<rparr>]
           (Fin 300) (defaultConfig\<lparr>MinSongLength := Fin 50\<rparr>)
         = [\<lparr>start = Fin 50, end' = Fin 100\<rparr>] @ trailing
         \<and> (trailing = [] \<or> trailing = [\<lparr>start = Fin 200, end' = Fin 300\<rparr>]))
   \<and> f64_gt (Fin 50) (Fin 0)
   \<and> f64_le (seg_length \<lparr>start = Fin 110, end' = Fin 105\<rparr>) (Fin 0)
   \<and> keep_if (f64_ge (seg_length \<lparr>start = Fin 110, end' = Fin 105\<rparr>) (Fin 50))
        \<lparr>start = Fin 110, end' = Fin 105\<rparr> = []
   \<and> [\<lparr>start = Fin 0, end' = round64 4.1\<rparr>, \<lparr>start = round64 64.1, end' = Fin 70\<rparr>] \<noteq> []
   \<and> (\<exists>trailing.
         calculateNonSilentSegments
           [\<lparr>start = Fin 0, end' = round64 4.1\<rparr>, \<lparr>start = round64 64.1, end' = Fin 70\<rparr>]
           (Fin 100) (defaultConfig\<lparr>MinSongLength := Fin 60\<rparr>)
         = trailing
         \<and> (trailing = [] \<or> trailing = [\<lparr>start = Fin 70, end' = Fin 100\<rparr>]))"
proof -
  let ?cfg = "defaultConfig\<lparr>MinSongLength := Fin 50\<rparr>"
  let ?c = "\<lparr>start = Fin 110, end' = Fin 105\<rparr>"
  note a = leading_middle_kept_iff_long_enough
    [of "[\<lparr>start = Fin 40, end' = Fin 50\<rparr>, \<lparr>start = Fin 100, end' = Fin 110\<rparr>,
          \<lparr>start = Fin 105, end' = Fin 200\<rparr>]" "Fin 300" ?cfg]
  note b = leading_middle_kept_iff_long_enough
    [of "[\<lparr>start = Fin 0, end' = round64 4.1\<rparr>, \<lparr>start = round64 64.1, end' = Fin 70\<rparr>]"
        "Fin 100" "defaultConfig\<lparr>MinSongLength := Fin 60\<rparr>"]
  have neg: "f64_le (seg_length ?c) (Fin 0)"
    by (simp add: seg_length_def round64_eval)
  from a have "\<forall>c. f64_gt (MinSongLength ?cfg) (Fin 0) \<and> f64_le (seg_length c) (Fin 0) \<longrightarrow>
                keep_if (f64_ge (seg_length c) (MinSongLength ?cfg)) c = []"
    by simp
  with neg have drop: "keep_if (f64_ge (seg_length ?c) (Fin 50)) ?c = []"
    by simp
  from a have first: "\<exists>trailing.
         calculateNonSilentSegments
           [\<lparr>start = Fin 40, end' = Fin 50\<rparr>, \<lparr>start = Fin 100, end' = Fin 110\<rparr>,
            \<lparr>start = Fin 105, end' = Fin 200\<rparr>]
           (Fin 300) ?cfg
         = [\<lparr>start = Fin 50, end' = Fin 100\<rparr>] @ trailing
         \<and> (trailing = [] \<or> trailing = [\<lparr>start = Fin 200, end' = Fin 300\<rparr>])"
    by (simp add: keep_if_def seg_length_def leadingCandidate_def middleCandidate_def
        trailingCandidate_def upt_conv_Cons round64_eval)
  from b have second: "\<exists>trailing.
         calculateNonSilentSegments
           [\<lparr>start = Fin 0, end' = round64 4.1\<rparr>, \<lparr>start = round64 64.1, end' = Fin 70\<rparr>]
           (Fin 100) (defaultConfig\<lparr>MinSongLength := Fin 60\<rparr>)
         = trailing
         \<and> (trailing = [] \<or> trailing = [\<lparr>start = Fin 70, end' = Fin 100\<rparr>])"
    by (simp add: keep_if_def seg_length_def leadingCandidate_def middleCandidate_def
        trailingCandidate_def upt_conv_Cons round64_eval)
  from first second neg drop show ?thesis by simp
qed

text \<open>
  Claim C2. For a non-empty silence list the trailing candidate
  \<open>[silences.last.end, totalDuration)\<close> is appended exactly when its length \<open>end - start\<close>,
  as \<^verbatim>\<open>float64\<close> subtraction computes it, is both strictly greater than the constant 0.1
  and at least \<^verbatim>\<open>MinSongLength\<close>; the leading and middle candidates are filtered by
  \<^verbatim>\<open>MinSongLength\<close> alone, with no 0.1 guard.
\<close>

theorem trailing_kept_iff_above_epsilon_and_long_enough:
  assumes "silences \<noteq> []"
  shows "calculateNonSilentSegments silences totalDuration cfg =
           keep_if (f64_ge (seg_length (leadingCandidate silences)) (MinSongLength cfg))
             (leadingCandidate silences)
           @ concat (map (\<lambda>i. keep_if (f64_ge (seg_length (middleCandidate silences i))
                                            (MinSongLength cfg))
                                 (middleCandidate silences i))
                      [0..<length silences - 1])
           @ keep_if (f64_gt (seg_length (trailingCandidate silences totalDuration)) (round64 0.1)
                      \<and> f64_ge (seg_length (trailingCandidate silences totalDuration))
                               (MinSongLength cfg))
               (trailingCandidate silences totalDuration)"
  using calculateNonSilentSegments_unfold [OF assms, of totalDuration cfg]
  by (simp add: leadingPart_def trailingPart_def middlePart_eq)

text \<open>
  With minimum length 0: a leading candidate of length 0.015625 and a middle candidate of
  length 0.03125 are kept while the trailing candidate \<open>[0.1, 0.2)\<close>, whose computed length is
  exactly the constant 0.1, is rejected; a trailing candidate of length 0.1000001 is
  accepted; and the trailing candidate \<open>[0.3, 0.4)\<close> is accepted, because its computed
  length is \<open>0.10000000000000003\<close>.
\<close>

theorem trailing_kept_iff_above_epsilon_and_long_enough_witness:
  "[\<lparr>start = Fin 0.015625, end' = Fin 0.03125\<rparr>, \<lparr>start = Fin 0.0625, end' = round64 0.1\<rparr>] \<noteq> []
   \<and> seg_length \<lparr>start = round64 0.1, end' = round64 0.2\<rparr> = round64 0.1
   \<and> calculateNonSilentSegments
         [\<lparr>start = Fin 0.015625, end' = Fin 0.03125\<rparr>, \<lparr>start = Fin 0.0625, end' = round64 0.1\<rparr>]
         (round64 0.2) (defaultConfig\<lparr>MinSongLength := Fin 0\<rparr>)
       = [\<lparr>start = Fin 0, end' = Fin 0.015625\<rparr>, \<lparr>start = Fin 0.03125, end' = Fin 0.0625\<rparr>]
   \<and> [\<lparr>start = Fin 10, end' = Fin 20\<rparr>] \<noteq> []
   \<and> calculateNonSilentSegments [\<lparr>start = Fin 10, end' = Fin 20\<rparr>] (round64 20.1000001)
         (defaultConfig\<lparr>MinSongLength := Fin 0\<rparr>)
       = [\<lparr>start = Fin 0, end' = Fin 10\<rparr>, \<lparr>start = Fin 20, end' = round64 20.1000001\<rparr>]
   \<and> [\<lparr>start = round64 0.1, end' = round64 0.3\<rparr>] \<noteq> []
   \<and> calculateNonSilentSegments [\<lparr>start = round64 0.1, end' = round64 0.3\<rparr>] (round64 0.4)
         (defaultConfig\<lparr>MinSongLength := Fin 0\<rparr>)
       = [\<lparr>start = Fin 0, end' = round64 0.1\<rparr>, \<lparr>start = round64 0.3, end' = round64 0.4\<rparr>]"
  using trailing_kept_iff_above_epsilon_and_long_enough
    [of "[\<lparr>start = Fin 0.015625, end' = Fin 0.03125\<rparr>, \<lparr>start = Fin 0.0625, end' = round64 0.1\<rparr>]"
        "round64 0.2" "defaultConfig\<lparr>MinSongLength := Fin 0\<rparr>"]
    trailing_kept_iff_above_epsilon_and_long_enough
    [of "[\<lparr>start = Fin 10, end' = Fin 20\<rparr>]" "round64 20.1000001"
        "defaultConfig\<lparr>MinSongLength := Fin 0\<rparr>"]
    trailing_kept_iff_above_epsilon_and_long_enough
    [of "[\<lparr>start = round64 0.1, end' = round64 0.3\<rparr>]" "round64 0.4"
        "defaultConfig\<lparr>MinSongLength := Fin 0\<rparr>"]
  by (simp add: keep_if_def seg_length_def leadingCandidate_def middleCandidate_def
      trailingCandidate_def upt_conv_Cons round64_eval)

text \<open>
  Claim C3. On an empty silence list the result is empty, whatever the total duration and
  the minimum song length.
\<close>

theorem no_silence_no_segments:
  "calculateNonSilentSegments [] totalDuration cfg = []"
  by (simp add: calculateNonSilentSegments_def)

text \<open>
  Claim C5. When no silence was detected, the segment list that \<^verbatim>\<open>main\<close> exports is the
  single segment \<open>[0, totalDuration)\<close> if \<open>totalDuration \<ge> MinSongLength\<close>, and is empty
  otherwise.
\<close>

theorem no_silence_whole_file_policy:
  "main_songSegments [] totalDuration cfg =
     (if f64_ge totalDuration (MinSongLength cfg)
      then [\<lparr>start = Fin 0, end' = totalDuration\<rparr>]
      else [])"
  by (simp add: main_songSegments_def calculateNonSilentSegments_def)


text \<open>
  Claim C4 as stated ("for all inputs the output is ordered ascending") fails: the
  deriver neither sorts nor validates its input. On the unsorted silence list
  \<open>[(0,100), (200,210), (10,20), (50,60)]\<close> with total duration 300 and minimum length 10
  the result is \<open>[(100,200), (20,50), (60,300)]\<close>, which is not ascending.
\<close>

theorem unsorted_silences_output_not_ascending:
  "calculateNonSilentSegments
     [\<lparr>start = Fin 0, end' = Fin 100\<rparr>, \<lparr>start = Fin 200, end' = Fin 210\<rparr>,
      \<lparr>start = Fin 10, end' = Fin 20\<rparr>, \<lparr>start = Fin 50, end' = Fin 60\<rparr>]
     (Fin 300) (defaultConfig\<lparr>MinSongLength := Fin 10\<rparr>)
   = [\<lparr>start = Fin 100, end' = Fin 200\<rparr>, \<lparr>start = Fin 20, end' = Fin 50\<rparr>,
      \<lparr>start = Fin 60, end' = Fin 300\<rparr>]
   \<and> \<not> ascending_by_start
       (calculateNonSilentSegments
          [\<lparr>start = Fin 0, end' = Fin 100\<rparr>, \<lparr>start = Fin 200, end' = Fin 210\<rparr>,
           \<lparr>start = Fin 10, end' = Fin 20\<rparr>, \<lparr>start = Fin 50, end' = Fin 60\<rparr>]
          (Fin 300) (defaultConfig\<lparr>MinSongLength := Fin 10\<rparr>))"
  by (simp add: calc_eval candidate_defs upt_conv_Cons ascending_by_start_def round64_eval)

text \<open>
  Claim C4, amended. For all inputs the output splits into a body of at most
  \<open>count(silences)\<close> intervals, each of length at least \<^verbatim>\<open>MinSongLength\<close>, followed by at
  most the trailing candidate, which when present has length above 0.1 and at least
  \<^verbatim>\<open>MinSongLength\<close>; so the output has at most \<open>count(silences) + 1\<close> intervals. Lengths are
  \<open>end - start\<close> as \<^verbatim>\<open>float64\<close> subtraction computes it. The output is ordered ascending
  whenever the silence list is ordered.
\<close>

theorem output_bounds_and_order:
  "(\<exists>body trailing.
      calculateNonSilentSegments silences totalDuration cfg = body @ trailing
      \<and> length body \<le> length silences
      \<and> (\<forall>x \<in> set body. f64_ge (seg_length x) (MinSongLength cfg))
      \<and> (trailing = []
         \<or> (trailing = [trailingCandidate silences totalDuration]
            \<and> f64_gt (seg_length (trailingCandidate silences totalDuration)) (round64 0.1)
            \<and> f64_ge (seg_length (trailingCandidate silences totalDuration)) (MinSongLength cfg))))
   \<and> length (calculateNonSilentSegments silences totalDuration cfg) \<le> length silences + 1
   \<and> (ordered_silences silences \<longrightarrow>
        ascending_by_start (calculateNonSilentSegments silences totalDuration cfg))"
proof (cases "silences = []")
  case True
  then show ?thesis
    by (simp add: calculateNonSilentSegments_def ascending_by_start_def)
next
  case False
  let ?out = "calculateNonSilentSegments silences totalDuration cfg"
  let ?body = "leadingPart silences cfg
               @ concat (map (middlePart silences cfg) [0..<length silences - 1])"
  let ?trailing = "trailingPart silences totalDuration cfg"
  have out: "?out = ?body @ ?trailing"
    by (simp add: calculateNonSilentSegments_unfold [OF False])
  have "length (leadingPart silences cfg) \<le> 1"
    by (simp add: leadingPart_def keep_if_def)
  moreover have "length (concat (map (middlePart silences cfg) [0..<length silences - 1]))
                   \<le> length silences - 1"
    by (rule middle_parts_length)
  moreover have "0 < length silences" using False by simp
  ultimately have len_body: "length ?body \<le> length silences"
    by (simp only: length_append)
  have long: "\<forall>x \<in> set ?body. f64_ge (seg_length x) (MinSongLength cfg)"
  proof
    fix x assume "x \<in> set ?body"
    then have "x \<in> set ?out" unfolding out by (simp only: set_append Un_iff) blast
    then show "f64_ge (seg_length x) (MinSongLength cfg)" by (rule in_output_long_enough)
  qed
  have trailing: "?trailing = []
       \<or> (?trailing = [trailingCandidate silences totalDuration]
          \<and> f64_gt (seg_length (trailingCandidate silences totalDuration)) (round64 0.1)
          \<and> f64_ge (seg_length (trailingCandidate silences totalDuration)) (MinSongLength cfg))"
    by (simp add: trailingPart_def keep_if_def)
  have "length ?trailing \<le> 1"
    by (simp add: trailingPart_def keep_if_def)
  with len_body have len_out: "length ?out \<le> length silences + 1"
    by (simp add: out)
  from out len_body long trailing have "\<exists>body trailing.
      ?out = body @ trailing
      \<and> length body \<le> length silences
      \<and> (\<forall>x \<in> set body. f64_ge (seg_length x) (MinSongLength cfg))
      \<and> (trailing = []
         \<or> (trailing = [trailingCandidate silences totalDuration]
            \<and> f64_gt (seg_length (trailingCandidate silences totalDuration)) (round64 0.1)
            \<and> f64_ge (seg_length (trailingCandidate silences totalDuration)) (MinSongLength cfg)))"
    by blast
  with len_out output_ascending show ?thesis by blast
qed

text \<open>
  On the ordered silences \<open>[(100,110), (200,210)]\<close> of a 300 second file the three
  segments come out in ascending order. With the silence \<open>[(0,0.5)]\<close>, total duration and
  minimum length both \<open>10^16\<close>, the trailing interval \<open>[0.5, 10^16)\<close> is returned: its computed
  length is \<open>10^16\<close>.
\<close>

theorem output_bounds_and_order_witness:
  "ordered_silences [\<lparr>start = Fin 100, end' = Fin 110\<rparr>, \<lparr>start = Fin 200, end' = Fin 210\<rparr>]
   \<and> calculateNonSilentSegments [\<lparr>start = Fin 100, end' = Fin 110\<rparr>, \<lparr>start = Fin 200, end' = Fin 210\<rparr>]
         (Fin 300) (defaultConfig\<lparr>MinSongLength := Fin 10\<rparr>)
       = [\<lparr>start = Fin 0, end' = Fin 100\<rparr>, \<lparr>start = Fin 110, end' = Fin 200\<rparr>,
          \<lparr>start = Fin 210, end' = Fin 300\<rparr>]
   \<and> ascending_by_start
         (calculateNonSilentSegments [\<lparr>start = Fin 100, end' = Fin 110\<rparr>, \<lparr>start = Fin 200, end' = Fin 210\<rparr>]
            (Fin 300) (defaultConfig\<lparr>MinSongLength := Fin 10\<rparr>))
   \<and> calculateNonSilentSegments [\<lparr>start = Fin 0, end' = Fin 0.5\<rparr>]
         (Fin (10 ^ 16)) (defaultConfig\<lparr>MinSongLength := Fin (10 ^ 16)\<rparr>)
       = [\<lparr>start = Fin 0.5, end' = Fin (10 ^ 16)\<rparr>]
   \<and> seg_length \<lparr>start = Fin 0.5, end' = Fin (10 ^ 16)\<rparr> = Fin (10 ^ 16)"
proof -
  have h: "ordered_silences [\<lparr>start = Fin 100, end' = Fin 110\<rparr>, \<lparr>start = Fin 200, end' = Fin 210\<rparr>]"
    by (simp add: ordered_silences_def ascending_by_start_def non_overlapping_def)
  have v: "calculateNonSilentSegments [\<lparr>start = Fin 100, end' = Fin 110\<rparr>, \<lparr>start = Fin 200, end' = Fin 210\<rparr>]
         (Fin 300) (defaultConfig\<lparr>MinSongLength := Fin 10\<rparr>)
       = [\<lparr>start = Fin 0, end' = Fin 100\<rparr>, \<lparr>start = Fin 110, end' = Fin 200\<rparr>,
          \<lparr>start = Fin 210, end' = Fin 300\<rparr>]"
    by (simp add: calc_eval candidate_defs upt_conv_Cons round64_eval)
  have w: "calculateNonSilentSegments [\<lparr>start = Fin 0, end' = Fin 0.5\<rparr>]
         (Fin (10 ^ 16)) (defaultConfig\<lparr>MinSongLength := Fin (10 ^ 16)\<rparr>)
       = [\<lparr>start = Fin 0.5, end' = Fin (10 ^ 16)\<rparr>]"
    and l: "seg_length \<lparr>start = Fin 0.5, end' = Fin (10 ^ 16)\<rparr> = Fin (10 ^ 16)"
    by (simp_all add: calc_eval candidate_defs round64_eval)
  from output_bounds_and_order
    [of "[\<lparr>start = Fin 100, end' = Fin 110\<rparr>, \<lparr>start = Fin 200, end' = Fin 210\<rparr>]" "Fin 300"
        "defaultConfig\<lparr>MinSongLength := Fin 10\<rparr>"] h
  have "ascending_by_start
         (calculateNonSilentSegments [\<lparr>start = Fin 100, end' = Fin 110\<rparr>, \<lparr>start = Fin 200, end' = Fin 210\<rparr>]
            (Fin 300) (defaultConfig\<lparr>MinSongLength := Fin 10\<rparr>))"
    by blast
  with h v w l show ?thesis by blast
qed

text \<open>
  Claim C9. When the silence list is ordered (ascending, pairwise non-overlapping,
  \<open>0 \<le> start \<le> end\<close>) and every silence ends by \<open>totalDuration\<close>, every returned interval
  lies within \<open>[0, totalDuration]\<close> and its span is disjoint from the span of every input
  silence.
\<close>

theorem output_within_duration_and_disjoint_from_silences:
  assumes "ordered_silences silences" and "silences_within silences totalDuration"
  shows "\<forall>x \<in> set (calculateNonSilentSegments silences totalDuration cfg).
           f64_le (Fin 0) (start x) \<and> f64_le (start x) (end' x) \<and> f64_le (end' x) totalDuration
           \<and> (\<forall>s \<in> set silences. span x \<inter> span s = {})"
proof
  fix x assume x: "x \<in> set (calculateNonSilentSegments silences totalDuration cfg)"
  then have ne: "silences \<noteq> []" by (auto simp: calculateNonSilentSegments_def)
  let ?n = "length silences"
  have pos: "0 < ?n" using ne by simp
  have n1: "?n - 1 < ?n" using pos by simp
  have last: "last silences = silences ! (?n - 1)" using ne by (simp add: last_conv_nth)
  have within: "\<And>j. j < ?n \<Longrightarrow> f64_le (end' (silences ! j)) totalDuration"
    using assms(2) by (simp add: silences_within_def list_all_length)
  note nn = ordered_silences_nth(1) [OF assms(1)]
  note wf = ordered_silences_nth(2) [OF assms(1)]
  note sep = ordered_silences_nth(3) [OF assms(1)]
  note enn = ordered_silences_end_nonneg [OF assms(1)]
  note emono = ordered_silences_end_mono [OF assms(1)]
  note smono = ordered_silences_start_mono [OF assms(1)]
  from in_output_cases [OF ne x]
  show "f64_le (Fin 0) (start x) \<and> f64_le (start x) (end' x) \<and> f64_le (end' x) totalDuration
           \<and> (\<forall>s \<in> set silences. span x \<inter> span s = {})"
  proof (elim disjE exE conjE)
    assume lead: "x = leadingCandidate silences"
    have "\<forall>s \<in> set silences. span x \<inter> span s = {}"
    proof
      fix s assume "s \<in> set silences"
      then obtain j where j: "j < ?n" "s = silences ! j" by (auto simp: in_set_conv_nth)
      from smono [of 0 j] j have "f64_le (end' x) (start s)"
        by (simp add: lead leadingCandidate_def)
      then show "span x \<inter> span s = {}" by (rule spans_disjoint(1))
    qed
    moreover from nn [OF pos] f64_le_trans [OF wf [OF pos] within [OF pos]]
    have "f64_le (Fin 0) (start x) \<and> f64_le (start x) (end' x) \<and> f64_le (end' x) totalDuration"
      by (simp add: lead leadingCandidate_def)
    ultimately show ?thesis by blast
  next
    fix i assume i: "i + 1 < ?n" and mid: "x = middleCandidate silences i"
    from i have i': "i < ?n" by simp
    have "\<forall>s \<in> set silences. span x \<inter> span s = {}"
    proof
      fix s assume "s \<in> set silences"
      then obtain j where j: "j < ?n" "s = silences ! j" by (auto simp: in_set_conv_nth)
      show "span x \<inter> span s = {}"
      proof (cases "j \<le> i")
        case True
        from emono [OF True i'] j(2) have "f64_le (end' s) (start x)"
          by (simp add: mid middleCandidate_def)
        then show ?thesis by (rule spans_disjoint(2))
      next
        case False
        then have "i + 1 \<le> j" by simp
        from smono [OF this j(1)] j(2) have "f64_le (end' x) (start s)"
          by (simp add: mid middleCandidate_def)
        then show ?thesis by (rule spans_disjoint(1))
      qed
    qed
    moreover from enn [OF i'] sep [of i "i + 1"] i f64_le_trans [OF wf [OF i] within [OF i]]
    have "f64_le (Fin 0) (start x) \<and> f64_le (start x) (end' x) \<and> f64_le (end' x) totalDuration"
      by (simp add: mid middleCandidate_def)
    ultimately show ?thesis by blast
  next
    assume trail: "x = trailingCandidate silences totalDuration"
    have "\<forall>s \<in> set silences. span x \<inter> span s = {}"
    proof
      fix s assume "s \<in> set silences"
      then obtain j where j: "j < ?n" "s = silences ! j" by (auto simp: in_set_conv_nth)
      then have "j \<le> ?n - 1" by simp
      from emono [OF this n1] j(2) have "f64_le (end' s) (start x)"
        by (simp add: trail trailingCandidate_def last)
      then show "span x \<inter> span s = {}" by (rule spans_disjoint(2))
    qed
    moreover from enn [OF n1] within [OF n1] f64_le_refl_right [OF within [OF n1]]
    have "f64_le (Fin 0) (start x) \<and> f64_le (start x) (end' x) \<and> f64_le (end' x) totalDuration"
      by (simp add: trail trailingCandidate_def last)
    ultimately show ?thesis by blast
  qed
qed

text \<open>
  The silences \<open>[(0,10), (200,210)]\<close> of a 300 second file give \<open>[(10,200), (210,300)]\<close>.
\<close>

theorem output_within_duration_and_disjoint_from_silences_witness:
  "ordered_silences [\<lparr>start = Fin 0, end' = Fin 10\<rparr>, \<lparr>start = Fin 200, end' = Fin 210\<rparr>]
   \<and> silences_within [\<lparr>start = Fin 0, end' = Fin 10\<rparr>, \<lparr>start = Fin 200, end' = Fin 210\<rparr>] (Fin 300)
   \<and> calculateNonSilentSegments [\<lparr>start = Fin 0, end' = Fin 10\<rparr>, \<lparr>start = Fin 200, end' = Fin 210\<rparr>]
         (Fin 300) (defaultConfig\<lparr>MinSongLength := Fin 10\<rparr>)
       = [\<lparr>start = Fin 10, end' = Fin 200\<rparr>, \<lparr>start = Fin 210, end' = Fin 300\<rparr>]
   \<and> span \<lparr>start = Fin 10, end' = Fin 200\<rparr> \<inter> span \<lparr>start = Fin 0, end' = Fin 10\<rparr> = {}
   \<and> span \<lparr>start = Fin 10, end' = Fin 200\<rparr> \<inter> span \<lparr>start = Fin 200, end' = Fin 210\<rparr> = {}
   \<and> span \<lparr>start = Fin 210, end' = Fin 300\<rparr> \<inter> span \<lparr>start = Fin 0, end' = Fin 10\<rparr> = {}
   \<and> span \<lparr>start = Fin 210, end' = Fin 300\<rparr> \<inter> span \<lparr>start = Fin 200, end' = Fin 210\<rparr> = {}"
proof -
  have h1: "ordered_silences [\<lparr>start = Fin 0, end' = Fin 10\<rparr>, \<lparr>start = Fin 200, end' = Fin 210\<rparr>]"
    by (simp add: ordered_silences_def ascending_by_start_def non_overlapping_def)
  have h2: "silences_within [\<lparr>start = Fin 0, end' = Fin 10\<rparr>, \<lparr>start = Fin 200, end' = Fin 210\<rparr>] (Fin 300)"
    by (simp add: silences_within_def)
  have v: "calculateNonSilentSegments [\<lparr>start = Fin 0, end' = Fin 10\<rparr>, \<lparr>start = Fin 200, end' = Fin 210\<rparr>]
         (Fin 300) (defaultConfig\<lparr>MinSongLength := Fin 10\<rparr>)
       = [\<lparr>start = Fin 10, end' = Fin 200\<rparr>, \<lparr>start = Fin 210, end' = Fin 300\<rparr>]"
    by (simp add: calc_eval candidate_defs upt_conv_Cons round64_eval)
  from output_within_duration_and_disjoint_from_silences
         [OF h1 h2, of "defaultConfig\<lparr>MinSongLength := Fin 10\<rparr>"]
  have "span \<lparr>start = Fin 10, end' = Fin 200\<rparr> \<inter> span \<lparr>start = Fin 0, end' = Fin 10\<rparr> = {}
   \<and> span \<lparr>start = Fin 10, end' = Fin 200\<rparr> \<inter> span \<lparr>start = Fin 200, end' = Fin 210\<rparr> = {}
   \<and> span \<lparr>start = Fin 210, end' = Fin 300\<rparr> \<inter> span \<lparr>start = Fin 0, end' = Fin 10\<rparr> = {}
   \<and> span \<lparr>start = Fin 210, end' = Fin 300\<rparr> \<inter> span \<lparr>start = Fin 200, end' = Fin 210\<rparr> = {}"
    unfolding v by simp
  with h1 h2 v show ?thesis by blast
qed


section \<open>Properties of the configuration merge\<close>

lemma fold_upd_True:
  "fold (\<lambda>name m. m(name \<mapsto> True)) visited m0 k =
     (if k \<in> set visited then Some True else m0 k)"
  by (induction visited arbitrary: m0) auto

lemma map_index_flag_Visit: "map_index (flag_Visit visited) name = (name \<in> set visited)"
  by (simp add: map_index_def flag_Visit_def fold_upd_True)

lemmas sel_if =
  if_distrib [of InputFile] if_distrib [of MinSilenceDur] if_distrib [of SilenceThreshold]
  if_distrib [of MinSongLength] if_distrib [of OutputPrefix] if_distrib [of OutputDir]
  if_distrib [of UploadToDrive] if_distrib [of RcloneRemote] if_distrib [of DriveSubfolder]
  if_distrib [of SetlistFile]

lemma overrideWithFlags_fields:
  "InputFile (overrideWithFlags cfg cli u) = (if map_index u ''input'' then cliInput cli else InputFile cfg)"
  "MinSilenceDur (overrideWithFlags cfg cli u) = (if map_index u ''duration'' then cliDuration cli else MinSilenceDur cfg)"
  "SilenceThreshold (overrideWithFlags cfg cli u) = (if map_index u ''threshold'' then cliThreshold cli else SilenceThreshold cfg)"
  "MinSongLength (overrideWithFlags cfg cli u) = (if map_index u ''minsonglength'' then cliMinSongLength cli else MinSongLength cfg)"
  "OutputPrefix (overrideWithFlags cfg cli u) = (if map_index u ''prefix'' then cliPrefix cli else OutputPrefix cfg)"
  "OutputDir (overrideWithFlags cfg cli u) = (if map_index u ''output'' then cliOutput cli else OutputDir cfg)"
  "UploadToDrive (overrideWithFlags cfg cli u) = (if map_index u ''upload'' then cliUpload cli else UploadToDrive cfg)"
  "RcloneRemote (overrideWithFlags cfg cli u) = (if map_index u ''remote'' then cliRemote cli else RcloneRemote cfg)"
  "DriveSubfolder (overrideWithFlags cfg cli u) = (if map_index u ''subfolder'' then cliSubfolder cli else DriveSubfolder cfg)"
  "SetlistFile (overrideWithFlags cfg cli u) = (if map_index u ''setlist'' then cliSetlistFile cli else SetlistFile cfg)"
  by (simp_all add: overrideWithFlags_def Let_def sel_if)

lemma mergeFileConfig_fields:
  "InputFile (mergeFileConfig cfg f) = (if InputFile f \<noteq> '''' then InputFile f else InputFile cfg)"
  "MinSilenceDur (mergeFileConfig cfg f) = (if MinSilenceDur f \<noteq> Fin 0 then MinSilenceDur f else MinSilenceDur cfg)"
  "SilenceThreshold (mergeFileConfig cfg f) = (if SilenceThreshold f \<noteq> '''' then SilenceThreshold f else SilenceThreshold cfg)"
  "MinSongLength (mergeFileConfig cfg f) = (if MinSongLength f \<noteq> Fin 0 then MinSongLength f else MinSongLength cfg)"
  "OutputPrefix (mergeFileConfig cfg f) = (if OutputPrefix f \<noteq> '''' then OutputPrefix f else OutputPrefix cfg)"
  "OutputDir (mergeFileConfig cfg f) = (if OutputDir f \<noteq> '''' then OutputDir f else OutputDir cfg)"
  "UploadToDrive (mergeFileConfig cfg f) = (if UploadToDrive f then UploadToDrive f else UploadToDrive cfg)"
  "RcloneRemote (mergeFileConfig cfg f) = (if RcloneRemote f \<noteq> '''' then RcloneRemote f else RcloneRemote cfg)"
  "DriveSubfolder (mergeFileConfig cfg f) = (if DriveSubfolder f \<noteq> '''' then DriveSubfolder f else DriveSubfolder cfg)"
  "SetlistFile (mergeFileConfig cfg f) = (if SetlistFile f \<noteq> '''' then SetlistFile f else SetlistFile cfg)"
  by (simp_all add: mergeFileConfig_def Let_def sel_if)

lemma case_absent_if_zero:
  "(case (if x = Some z then None else x) of None \<Rightarrow> z | Some v \<Rightarrow> v)
     = (case x of None \<Rightarrow> z | Some v \<Rightarrow> v)"
  by (cases x) auto

lemma json_Unmarshal_absent_if_zero:
  "json_Unmarshal (absent_if_zero obj) zeroConfig = json_Unmarshal obj zeroConfig"
  by (simp add: json_Unmarshal_def absent_if_zero_def zeroConfig_def case_absent_if_zero)

lemma loadConfigFromFile_absent_if_zero:
  "loadConfigFromFile (fs(p \<mapsto> JsonObject (absent_if_zero obj))) q
     = loadConfigFromFile (fs(p \<mapsto> JsonObject obj)) q"
  by (simp add: loadConfigFromFile_def json_Unmarshal_absent_if_zero)

lemma loadConfigFromFile_object:
  "fs p = Some (JsonObject obj) \<Longrightarrow> loadConfigFromFile fs p = Inr (json_Unmarshal obj zeroConfig)"
  by (simp add: loadConfigFromFile_def)

lemma json_Unmarshal_fields:
  "InputFile (json_Unmarshal obj zeroConfig) = (case input_file obj of None \<Rightarrow> '''' | Some v \<Rightarrow> v)"
  "MinSilenceDur (json_Unmarshal obj zeroConfig) = (case min_silence_duration obj of None \<Rightarrow> Fin 0 | Some v \<Rightarrow> v)"
  "SilenceThreshold (json_Unmarshal obj zeroConfig) = (case silence_threshold obj of None \<Rightarrow> '''' | Some v \<Rightarrow> v)"
  "MinSongLength (json_Unmarshal obj zeroConfig) = (case min_song_length obj of None \<Rightarrow> Fin 0 | Some v \<Rightarrow> v)"
  "OutputPrefix (json_Unmarshal obj zeroConfig) = (case output_prefix obj of None \<Rightarrow> '''' | Some v \<Rightarrow> v)"
  "OutputDir (json_Unmarshal obj zeroConfig) = (case output_dir obj of None \<Rightarrow> '''' | Some v \<Rightarrow> v)"
  "UploadToDrive (json_Unmarshal obj zeroConfig) = (case upload_to_drive obj of None \<Rightarrow> False | Some v \<Rightarrow> v)"
  "RcloneRemote (json_Unmarshal obj zeroConfig) = (case rclone_remote obj of None \<Rightarrow> '''' | Some v \<Rightarrow> v)"
  "DriveSubfolder (json_Unmarshal obj zeroConfig) = (case drive_subfolder obj of None \<Rightarrow> '''' | Some v \<Rightarrow> v)"
  "SetlistFile (json_Unmarshal obj zeroConfig) = (case setlist_file obj of None \<Rightarrow> '''' | Some v \<Rightarrow> v)"
  by (simp_all add: json_Unmarshal_def zeroConfig_def split: option.splits)

lemma loadConfig_fields:
  "InputFile (loadConfig fs cli visited) =
     (if ''input'' \<in> set visited then cliInput cli
      else case loadConfigFromFile fs (configFilePath cli) of
             Inr f \<Rightarrow> (if InputFile f \<noteq> '''' then InputFile f else InputFile defaultConfig)
           | Inl e \<Rightarrow> InputFile defaultConfig)"
  "MinSilenceDur (loadConfig fs cli visited) =
     (if ''duration'' \<in> set visited then cliDuration cli
      else case loadConfigFromFile fs (configFilePath cli) of
             Inr f \<Rightarrow> (if MinSilenceDur f \<noteq> Fin 0 then MinSilenceDur f else MinSilenceDur defaultConfig)
           | Inl e \<Rightarrow> MinSilenceDur defaultConfig)"
  "SilenceThreshold (loadConfig fs cli visited) =
     (if ''threshold'' \<in> set visited then cliThreshold cli
      else case loadConfigFromFile fs (configFilePath cli) of
             Inr f \<Rightarrow> (if SilenceThreshold f \<noteq> '''' then SilenceThreshold f
                        else SilenceThreshold defaultConfig)
           | Inl e \<Rightarrow> SilenceThreshold defaultConfig)"
  "MinSongLength (loadConfig fs cli visited) =
     (if ''minsonglength'' \<in> set visited then cliMinSongLength cli
      else case loadConfigFromFile fs (configFilePath cli) of
             Inr f \<Rightarrow> (if MinSongLength f \<noteq> Fin 0 then MinSongLength f else MinSongLength defaultConfig)
           | Inl e \<Rightarrow> MinSongLength defaultConfig)"
  "OutputPrefix (loadConfig fs cli visited) =
     (if ''prefix'' \<in> set visited then cliPrefix cli
      else case loadConfigFromFile fs (configFilePath cli) of
             Inr f \<Rightarrow> (if OutputPrefix f \<noteq> '''' then OutputPrefix f else OutputPrefix defaultConfig)
           | Inl e \<Rightarrow> OutputPrefix defaultConfig)"
  "OutputDir (loadConfig fs cli visited) =
     (if ''output'' \<in> set visited then cliOutput cli
      else case loadConfigFromFile fs (configFilePath cli) of
             Inr f \<Rightarrow> (if OutputDir f \<noteq> '''' then OutputDir f else OutputDir defaultConfig)
           | Inl e \<Rightarrow> OutputDir defaultConfig)"
  "UploadToDrive (loadConfig fs cli visited) =
     (if ''upload'' \<in> set visited then cliUpload cli
      else case loadConfigFromFile fs (configFilePath cli) of
             Inr f \<Rightarrow> (if UploadToDrive f then True else UploadToDrive defaultConfig)
           | Inl e \<Rightarrow> UploadToDrive defaultConfig)"
  "RcloneRemote (loadConfig fs cli visited) =
     (if ''remote'' \<in> set visited then cliRemote cli
      else case loadConfigFromFile fs (configFilePath cli) of
             Inr f \<Rightarrow> (if RcloneRemote f \<noteq> '''' then RcloneRemote f else RcloneRemote defaultConfig)
           | Inl e \<Rightarrow> RcloneRemote defaultConfig)"
  "DriveSubfolder (loadConfig fs cli visited) =
     (if ''subfolder'' \<in> set visited then cliSubfolder cli
      else case loadConfigFromFile fs (configFilePath cli) of
             Inr f \<Rightarrow> (if DriveSubfolder f \<noteq> '''' then DriveSubfolder f
                        else DriveSubfolder defaultConfig)
           | Inl e \<Rightarrow> DriveSubfolder defaultConfig)"
  "SetlistFile (loadConfig fs cli visited) =
     (if ''setlist'' \<in> set visited then cliSetlistFile cli
      else case loadConfigFromFile fs (configFilePath cli) of
             Inr f \<Rightarrow> (if SetlistFile f \<noteq> '''' then SetlistFile f else SetlistFile defaultConfig)
           | Inl e \<Rightarrow> SetlistFile defaultConfig)"
  by (simp_all add: loadConfig_def Let_def overrideWithFlags_fields mergeFileConfig_fields
      map_index_flag_Visit split: sum.splits)

text \<open>
  Claim C6. In the three-layer merge every flag that was explicitly set on the command
  line determines the final value of its setting, whatever the configuration file holds.
\<close>

theorem explicit_flags_override_file:
  "(''input'' \<in> set visited \<longrightarrow> InputFile (loadConfig fs cli visited) = cliInput cli)
   \<and> (''duration'' \<in> set visited \<longrightarrow> MinSilenceDur (loadConfig fs cli visited) = cliDuration cli)
   \<and> (''threshold'' \<in> set visited \<longrightarrow> SilenceThreshold (loadConfig fs cli visited) = cliThreshold cli)
   \<and> (''minsonglength'' \<in> set visited \<longrightarrow>
        MinSongLength (loadConfig fs cli visited) = cliMinSongLength cli)
   \<and> (''prefix'' \<in> set visited \<longrightarrow> OutputPrefix (loadConfig fs cli visited) = cliPrefix cli)
   \<and> (''output'' \<in> set visited \<longrightarrow> OutputDir (loadConfig fs cli visited) = cliOutput cli)
   \<and> (''upload'' \<in> set visited \<longrightarrow> UploadToDrive (loadConfig fs cli visited) = cliUpload cli)
   \<and> (''remote'' \<in> set visited \<longrightarrow> RcloneRemote (loadConfig fs cli visited) = cliRemote cli)
   \<and> (''subfolder'' \<in> set visited \<longrightarrow> DriveSubfolder (loadConfig fs cli visited) = cliSubfolder cli)
   \<and> (''setlist'' \<in> set visited \<longrightarrow> SetlistFile (loadConfig fs cli visited) = cliSetlistFile cli)"
  by (simp add: loadConfig_def Let_def overrideWithFlags_fields map_index_flag_Visit)

text \<open>
  A file that sets \<^verbatim>\<open>upload_to_drive\<close> to true turns the upload on; an explicit
  \<^verbatim>\<open>-upload=false\<close> turns it off again.
\<close>

theorem explicit_flags_override_file_witness:
  "''upload'' \<in> set [''upload'']
   \<and> UploadToDrive
        (loadConfig [''config.json'' \<mapsto> JsonObject (json_empty\<lparr>upload_to_drive := Some True\<rparr>)]
           defineFlags [])
   \<and> \<not> UploadToDrive
        (loadConfig [''config.json'' \<mapsto> JsonObject (json_empty\<lparr>upload_to_drive := Some True\<rparr>)]
           (defineFlags\<lparr>cliUpload := False\<rparr>) [''upload''])"
  using explicit_flags_override_file
    [of "[''upload'']" "[''config.json'' \<mapsto> JsonObject (json_empty\<lparr>upload_to_drive := Some True\<rparr>)]"
        "defineFlags\<lparr>cliUpload := False\<rparr>"]
  by (simp add: loadConfig_fields loadConfigFromFile_object json_Unmarshal_fields json_empty_def
      defineFlags_def)

text \<open>
  Claim C10. In the file layer a zero or empty value is indistinguishable from an absent
  key: removing the zero-valued keys from the JSON object changes nothing in the loaded
  configuration. For each of the ten settings, when the file leaves its key out or gives
  it the zero value (\<open>0\<close>, the empty string, \<open>false\<close>) and its flag is not set, the default
  stays in effect; so \<^verbatim>\<open>min_song_length\<close> 0 and \<^verbatim>\<open>upload_to_drive\<close> false in the file
  cannot override the defaults. A final minimum of 0 can only come from an explicit
  \<^verbatim>\<open>-minsonglength=0\<close>, and a file-set upload can only be switched off by an explicit
  \<^verbatim>\<open>-upload=false\<close>.
\<close>

theorem file_zero_values_leave_defaults:
  "loadConfig (fs(p \<mapsto> JsonObject (absent_if_zero obj))) cli visited
     = loadConfig (fs(p \<mapsto> JsonObject obj)) cli visited
   \<and> (fs (configFilePath cli) = Some (JsonObject obj) \<longrightarrow>
        (input_file obj \<in> {None, Some ''''} \<and> ''input'' \<notin> set visited \<longrightarrow>
           InputFile (loadConfig fs cli visited) = InputFile defaultConfig)
        \<and> (min_silence_duration obj \<in> {None, Some (Fin 0)} \<and> ''duration'' \<notin> set visited \<longrightarrow>
           MinSilenceDur (loadConfig fs cli visited) = MinSilenceDur defaultConfig)
        \<and> (silence_threshold obj \<in> {None, Some ''''} \<and> ''threshold'' \<notin> set visited \<longrightarrow>
           SilenceThreshold (loadConfig fs cli visited) = SilenceThreshold defaultConfig)
        \<and> (min_song_length obj \<in> {None, Some (Fin 0)} \<and> ''minsonglength'' \<notin> set visited \<longrightarrow>
           MinSongLength (loadConfig fs cli visited) = MinSongLength defaultConfig)
        \<and> (output_prefix obj \<in> {None, Some ''''} \<and> ''prefix'' \<notin> set visited \<longrightarrow>
           OutputPrefix (loadConfig fs cli visited) = OutputPrefix defaultConfig)
        \<and> (output_dir obj \<in> {None, Some ''''} \<and> ''output'' \<notin> set visited \<longrightarrow>
           OutputDir (loadConfig fs cli visited) = OutputDir defaultConfig)
        \<and> (upload_to_drive obj \<in> {None, Some False} \<and> ''upload'' \<notin> set visited \<longrightarrow>
           UploadToDrive (loadConfig fs cli visited) = UploadToDrive defaultConfig)
        \<and> (rclone_remote obj \<in> {None, Some ''''} \<and> ''remote'' \<notin> set visited \<longrightarrow>
           RcloneRemote (loadConfig fs cli visited) = RcloneRemote defaultConfig)
        \<and> (drive_subfolder obj \<in> {None, Some ''''} \<and> ''subfolder'' \<notin> set visited \<longrightarrow>
           DriveSubfolder (loadConfig fs cli visited) = DriveSubfolder defaultConfig)
        \<and> (setlist_file obj \<in> {None, Some ''''} \<and> ''setlist'' \<notin> set visited \<longrightarrow>
           SetlistFile (loadConfig fs cli visited) = SetlistFile defaultConfig)
        \<and> (upload_to_drive obj = Some True \<and> \<not> UploadToDrive (loadConfig fs cli visited) \<longrightarrow>
           ''upload'' \<in> set visited \<and> \<not> cliUpload cli))
   \<and> (MinSongLength (loadConfig fs cli visited) = Fin 0 \<longrightarrow>
        ''minsonglength'' \<in> set visited \<and> cliMinSongLength cli = Fin 0)"
proof (intro conjI impI)
  show "loadConfig (fs(p \<mapsto> JsonObject (absent_if_zero obj))) cli visited
     = loadConfig (fs(p \<mapsto> JsonObject obj)) cli visited"
    by (simp only: loadConfig_def loadConfigFromFile_absent_if_zero)
next
  assume "MinSongLength (loadConfig fs cli visited) = Fin 0"
  then show "''minsonglength'' \<in> set visited"
    by (auto simp: loadConfig_fields defaultConfig_def split: if_splits sum.splits)
next
  assume "MinSongLength (loadConfig fs cli visited) = Fin 0"
  then show "cliMinSongLength cli = Fin 0"
    by (auto simp: loadConfig_fields defaultConfig_def split: if_splits sum.splits)
qed (auto simp: loadConfig_fields loadConfigFromFile_object json_Unmarshal_fields
      split: if_splits)

text \<open>
  A file that gives every key its zero value, and no flags: the loaded configuration is
  the default configuration, with the minimum song length still 200 and the upload still
  off.
\<close>

theorem file_zero_values_leave_defaults_witness:
  "[''config.json'' \<mapsto> JsonObject json_zero] (configFilePath defineFlags)
     = Some (JsonObject json_zero)
   \<and> min_song_length json_zero \<in> {None, Some (Fin 0)}
   \<and> upload_to_drive json_zero \<in> {None, Some False}
   \<and> output_dir json_zero \<in> {None, Some ''''}
   \<and> ''minsonglength'' \<notin> set [] \<and> ''upload'' \<notin> set [] \<and> ''output'' \<notin> set []
   \<and> loadConfig [''config.json'' \<mapsto> JsonObject json_zero] defineFlags [] = defaultConfig
   \<and> MinSongLength (loadConfig [''config.json'' \<mapsto> JsonObject json_zero] defineFlags []) = Fin 200
   \<and> UploadToDrive (loadConfig [''config.json'' \<mapsto> JsonObject json_zero] defineFlags []) = False"
proof -
  let ?fs = "[''config.json'' \<mapsto> JsonObject json_zero]"
  let ?cfg = "loadConfig ?fs defineFlags []"
  have h: "?fs (configFilePath defineFlags) = Some (JsonObject json_zero)"
    by (simp add: defineFlags_def)
  have k: "input_file json_zero \<in> {None, Some ''''}"
    "min_silence_duration json_zero \<in> {None, Some (Fin 0)}"
    "silence_threshold json_zero \<in> {None, Some ''''}"
    "min_song_length json_zero \<in> {None, Some (Fin 0)}"
    "output_prefix json_zero \<in> {None, Some ''''}"
    "output_dir json_zero \<in> {None, Some ''''}"
    "upload_to_drive json_zero \<in> {None, Some False}"
    "rclone_remote json_zero \<in> {None, Some ''''}"
    "drive_subfolder json_zero \<in> {None, Some ''''}"
    "setlist_file json_zero \<in> {None, Some ''''}"
    by (simp_all add: json_zero_def)
  have nf: "\<And>name. name \<notin> set ([] :: string list)" by simp
  note inst = file_zero_values_leave_defaults [of ?fs "''config.json''" json_zero defineFlags "[]"]
  note c0 = inst [THEN conjunct2, THEN conjunct1, THEN mp, OF h]
  note c1 = c0 [THEN conjunct2]
  note c2 = c1 [THEN conjunct2]
  note c3 = c2 [THEN conjunct2]
  note c4 = c3 [THEN conjunct2]
  note c5 = c4 [THEN conjunct2]
  note c6 = c5 [THEN conjunct2]
  note c7 = c6 [THEN conjunct2]
  note c8 = c7 [THEN conjunct2]
  note c9 = c8 [THEN conjunct2]
  have fields: "InputFile ?cfg = InputFile defaultConfig"
    "MinSilenceDur ?cfg = MinSilenceDur defaultConfig"
    "SilenceThreshold ?cfg = SilenceThreshold defaultConfig"
    "MinSongLength ?cfg = MinSongLength defaultConfig"
    "OutputPrefix ?cfg = OutputPrefix defaultConfig"
    "OutputDir ?cfg = OutputDir defaultConfig"
    "UploadToDrive ?cfg = UploadToDrive defaultConfig"
    "RcloneRemote ?cfg = RcloneRemote defaultConfig"
    "DriveSubfolder ?cfg = DriveSubfolder defaultConfig"
    "SetlistFile ?cfg = SetlistFile defaultConfig"
    by (rule c0 [THEN conjunct1, THEN mp, OF conjI, OF k(1) nf]
             c1 [THEN conjunct1, THEN mp, OF conjI, OF k(2) nf]
             c2 [THEN conjunct1, THEN mp, OF conjI, OF k(3) nf]
             c3 [THEN conjunct1, THEN mp, OF conjI, OF k(4) nf]
             c4 [THEN conjunct1, THEN mp, OF conjI, OF k(5) nf]
             c5 [THEN conjunct1, THEN mp, OF conjI, OF k(6) nf]
             c6 [THEN conjunct1, THEN mp, OF conjI, OF k(7) nf]
             c7 [THEN conjunct1, THEN mp, OF conjI, OF k(8) nf]
             c8 [THEN conjunct1, THEN mp, OF conjI, OF k(9) nf]
             c9 [THEN conjunct1, THEN mp, OF conjI, OF k(10) nf])+
  then have eq: "?cfg = defaultConfig"
    by (intro Config.equality) simp_all
  from fields have "MinSongLength ?cfg = Fin 200" and "UploadToDrive ?cfg = False"
    by (simp_all add: defaultConfig_def)
  with h k(4,6,7) nf eq show ?thesis by blast
qed


section \<open>Properties of the rename step\<close>

lemma renameLoop_Cons:
  "i < length songTitles \<Longrightarrow>
   renameLoop os_Rename songTitles i (old # rest) fs =
     (case os_Rename fs old (newFilePath i old (songTitles ! i)) of
        None \<Rightarrow>
          (fst (renameLoop os_Rename songTitles (i + 1) rest fs),
           RenameError old (newFilePath i old (songTitles ! i))
             # snd (renameLoop os_Rename songTitles (i + 1) rest fs))
      | Some fs1 \<Rightarrow>
          (fst (renameLoop os_Rename songTitles (i + 1) rest fs1),
           Renamed old (newFilePath i old (songTitles ! i))
             # snd (renameLoop os_Rename songTitles (i + 1) rest fs1)))"
  by (simp add: Let_def newFilePath_def newFileName_def split: prod.splits option.splits
      del: filepath_Join.simps)

lemma renameLoop_step:
  assumes "i < length songTitles"
  shows "\<exists>entry fs1.
     snd (renameLoop os_Rename songTitles i (old # rest) fs)
       = entry # snd (renameLoop os_Rename songTitles (i + 1) rest fs1)
     \<and> rename_source entry = old
     \<and> rename_target entry = newFilePath i old (songTitles ! i)"
proof (cases "os_Rename fs old (newFilePath i old (songTitles ! i))")
  case None
  then have "snd (renameLoop os_Rename songTitles i (old # rest) fs)
       = RenameError old (newFilePath i old (songTitles ! i))
           # snd (renameLoop os_Rename songTitles (i + 1) rest fs)"
    by (simp add: renameLoop_Cons [OF assms] del: renameLoop.simps)
  then show ?thesis
    by (intro exI [of _ "RenameError old (newFilePath i old (songTitles ! i))"] exI [of _ fs])
       simp
next
  case (Some fs1)
  then have "snd (renameLoop os_Rename songTitles i (old # rest) fs)
       = Renamed old (newFilePath i old (songTitles ! i))
           # snd (renameLoop os_Rename songTitles (i + 1) rest fs1)"
    by (simp add: renameLoop_Cons [OF assms] del: renameLoop.simps)
  then show ?thesis
    by (intro exI [of _ "Renamed old (newFilePath i old (songTitles ! i))"] exI [of _ fs1])
       simp
qed

lemma renameLoop_log:
  "length (snd (renameLoop os_Rename songTitles i files fs)) = min (length files) (length songTitles - i)
   \<and> map rename_source (snd (renameLoop os_Rename songTitles i files fs))
       = take (length songTitles - i) files
   \<and> (\<forall>k < length (snd (renameLoop os_Rename songTitles i files fs)).
         rename_target (snd (renameLoop os_Rename songTitles i files fs) ! k)
           = newFilePath (i + k) (files ! k) (songTitles ! (i + k)))"
proof (induction files arbitrary: i fs)
  case Nil
  show ?case by simp
next
  case (Cons old rest)
  show ?case
  proof (cases "i < length songTitles")
    case False
    then show ?thesis by simp
  next
    case True
    from renameLoop_step [OF True, of os_Rename old rest fs]
    obtain entry fs1 where
      step: "snd (renameLoop os_Rename songTitles i (old # rest) fs)
               = entry # snd (renameLoop os_Rename songTitles (i + 1) rest fs1)"
      and src: "rename_source entry = old"
      and tgt: "rename_target entry = newFilePath i old (songTitles ! i)"
      by blast
    let ?tail = "snd (renameLoop os_Rename songTitles (i + 1) rest fs1)"
    note IH = Cons.IH [of "i + 1" fs1]
    from True have diff: "length songTitles - i = Suc (length songTitles - (i + 1))" by simp
    have len: "length (entry # ?tail) = min (length (old # rest)) (length songTitles - i)"
      using IH diff by simp
    have srcs: "map rename_source (entry # ?tail) = take (length songTitles - i) (old # rest)"
      using IH src diff by simp
    have tgts: "\<forall>k < length (entry # ?tail).
         rename_target ((entry # ?tail) ! k)
           = newFilePath (i + k) ((old # rest) ! k) (songTitles ! (i + k))"
    proof (intro allI impI)
      fix k assume k: "k < length (entry # ?tail)"
      show "rename_target ((entry # ?tail) ! k)
           = newFilePath (i + k) ((old # rest) ! k) (songTitles ! (i + k))"
      proof (cases k)
        case 0
        with tgt show ?thesis by simp
      next
        case (Suc k')
        with k have "k' < length ?tail" by simp
        with IH have "rename_target (?tail ! k')
           = newFilePath (i + 1 + k') (rest ! k') (songTitles ! (i + 1 + k'))"
          by blast
        with Suc show ?thesis by simp
      qed
    qed
    from len srcs tgts show ?thesis unfolding step by blast
  qed
qed

lemma renameLoop_attempts:
  "renameLoop os_Rename songTitles i files fs =
     attempt_renames os_Rename
       (map (\<lambda>(k, old, title). (old, newFilePath k old title))
          (zip [i..<i + length files] (zip files (drop i songTitles))))
       fs"
proof (induction files arbitrary: i fs)
  case Nil
  show ?case by simp
next
  case (Cons old rest)
  show ?case
  proof (cases "i < length songTitles")
    case False
    then show ?thesis by simp
  next
    case True
    have titles: "drop i songTitles = songTitles ! i # drop (i + 1) songTitles"
      using True by (simp add: Cons_nth_drop_Suc)
    have idx: "[i..<i + length (old # rest)] = i # [i + 1..<i + 1 + length rest]"
      using upt_conv_Cons [of i "i + length (old # rest)"] by simp
    have pairs: "map (\<lambda>(k, old, title). (old, newFilePath k old title))
          (zip [i..<i + length (old # rest)] (zip (old # rest) (drop i songTitles)))
        = (old, newFilePath i old (songTitles ! i))
          # map (\<lambda>(k, old, title). (old, newFilePath k old title))
              (zip [i + 1..<i + 1 + length rest] (zip rest (drop (i + 1) songTitles)))"
      unfolding titles idx by simp
    have step: "renameLoop os_Rename songTitles i (old # rest) fs =
       (case os_Rename fs old (newFilePath i old (songTitles ! i)) of
          None \<Rightarrow>
            (fst (renameLoop os_Rename songTitles (i + 1) rest fs),
             RenameError old (newFilePath i old (songTitles ! i))
               # snd (renameLoop os_Rename songTitles (i + 1) rest fs))
        | Some fs1 \<Rightarrow>
            (fst (renameLoop os_Rename songTitles (i + 1) rest fs1),
             Renamed old (newFilePath i old (songTitles ! i))
               # snd (renameLoop os_Rename songTitles (i + 1) rest fs1)))"
      by (rule renameLoop_Cons [OF True])
    show ?thesis
      unfolding pairs step Cons.IH [of "i + 1"]
      by (simp add: case_prod_beta split: option.splits)
  qed
qed

lemma positional_pairs_length:
  "length (positional_pairs files titles) = min (length files) (length titles)"
  by (simp add: positional_pairs_def)

lemma positional_pairs_nth:
  assumes "i < min (length files) (length titles)"
  shows "positional_pairs files titles ! i = (files ! i, newFilePath i (files ! i) (titles ! i))"
  using assms by (simp add: positional_pairs_def)

lemmas eval_defs =
  sanitizeFilename_def strings_TrimSpace_def trimLeftRunes.simps spaceRunes_def
  asciiSpace_def unicodeSpace_def invalidChars_def word_char_def space_char_def
  sprintf_02d_def decimal.simps filepath_Ext_def filepath_Dir_def filepath_Clean_def
  newFilePath_def newFileName_def Let_def

text \<open>
  Claim C7. The rename loop does exactly what the positional pairing prescribes, whatever
  \<^verbatim>\<open>os.Rename\<close> does: its final file system and its log are those of trying, in order
  and once each, the rename of file \<open>i\<close> to the path built from title \<open>i\<close>, for every
  \<open>i\<close> below \<open>min(count(files), count(titles))\<close>. A rename that fails is logged and the
  following files are still renamed, on the file system the earlier renames left. Files
  beyond the titles are not renamed and titles beyond the files are not used. The titles
  of \<^verbatim>\<open>renameFilesFromSetlist\<close> are the non-empty lines of the setlist file, and nothing is
  renamed when that file cannot be read.
\<close>

theorem rename_pairs_files_with_titles_positionally:
  "renameLoop os_Rename songTitles 0 exportedFiles fs
     = attempt_renames os_Rename (positional_pairs exportedFiles songTitles) fs
   \<and> renameFilesFromSetlist os_Rename os_Open cfg exportedFiles fs
     = (case os_Open (SetlistFile cfg) of
          Lines ls \<Rightarrow>
            attempt_renames os_Rename
              (positional_pairs exportedFiles (filter (\<lambda>title. title \<noteq> []) ls)) fs
        | _ \<Rightarrow> (fs, []))
   \<and> length (positional_pairs exportedFiles songTitles)
       = min (length exportedFiles) (length songTitles)
   \<and> (\<forall>i < min (length exportedFiles) (length songTitles).
         positional_pairs exportedFiles songTitles ! i
           = (exportedFiles ! i, newFilePath i (exportedFiles ! i) (songTitles ! i)))
   \<and> length (snd (renameLoop os_Rename songTitles 0 exportedFiles fs))
       = min (length exportedFiles) (length songTitles)
   \<and> map rename_source (snd (renameLoop os_Rename songTitles 0 exportedFiles fs))
       = take (length songTitles) exportedFiles
   \<and> (\<forall>i < min (length exportedFiles) (length songTitles).
         rename_target (snd (renameLoop os_Rename songTitles 0 exportedFiles fs) ! i)
           = newFilePath i (exportedFiles ! i) (songTitles ! i))"
proof (intro conjI allI impI)
  show "renameLoop os_Rename songTitles 0 exportedFiles fs
     = attempt_renames os_Rename (positional_pairs exportedFiles songTitles) fs"
    using renameLoop_attempts [of os_Rename songTitles 0 exportedFiles fs]
    by (simp add: positional_pairs_def)
next
  show "renameFilesFromSetlist os_Rename os_Open cfg exportedFiles fs
     = (case os_Open (SetlistFile cfg) of
          Lines ls \<Rightarrow>
            attempt_renames os_Rename
              (positional_pairs exportedFiles (filter (\<lambda>title. title \<noteq> []) ls)) fs
        | _ \<Rightarrow> (fs, []))"
    using renameLoop_attempts [of os_Rename _ 0 exportedFiles fs]
    by (simp add: renameFilesFromSetlist_def positional_pairs_def split: setlist_read.splits)
next
  show "length (positional_pairs exportedFiles songTitles)
       = min (length exportedFiles) (length songTitles)"
    by (rule positional_pairs_length)
next
  fix i assume "i < min (length exportedFiles) (length songTitles)"
  then show "positional_pairs exportedFiles songTitles ! i
           = (exportedFiles ! i, newFilePath i (exportedFiles ! i) (songTitles ! i))"
    by (rule positional_pairs_nth)
next
  show "length (snd (renameLoop os_Rename songTitles 0 exportedFiles fs))
       = min (length exportedFiles) (length songTitles)"
    using renameLoop_log [of os_Rename songTitles 0 exportedFiles fs] by simp
next
  show "map rename_source (snd (renameLoop os_Rename songTitles 0 exportedFiles fs))
       = take (length songTitles) exportedFiles"
    using renameLoop_log [of os_Rename songTitles 0 exportedFiles fs] by simp
next
  fix i assume "i < min (length exportedFiles) (length songTitles)"
  then show "rename_target (snd (renameLoop os_Rename songTitles 0 exportedFiles fs) ! i)
           = newFilePath i (exportedFiles ! i) (songTitles ! i)"
    using renameLoop_log [of os_Rename songTitles 0 exportedFiles fs] by simp
qed

text \<open>
  Four exported files and three titles, with the second file missing on disk. The first
  file is renamed, the rename of the second fails, the third is renamed all the same, and
  the fourth is left alone: the final file system holds the two new names.
\<close>

theorem rename_pairs_files_with_titles_positionally_witness:
  "positional_pairs
     [''output/Song_01.mp4'', ''output/Song_02.mp4'', ''output/Song_03.mp4'', ''output/Song_04.mp4'']
     [''Intro'', ''Second Song!'', ''Encore'']
     = [(''output/Song_01.mp4'', ''output/01 - Intro.mp4''),
        (''output/Song_02.mp4'', ''output/02 - Second_Song.mp4''),
        (''output/Song_03.mp4'', ''output/03 - Encore.mp4'')]
   \<and> renameLoop simple_rename [''Intro'', ''Second Song!'', ''Encore''] 0
       [''output/Song_01.mp4'', ''output/Song_02.mp4'', ''output/Song_03.mp4'', ''output/Song_04.mp4'']
       [''output/Song_01.mp4'', ''output/Song_03.mp4'', ''output/Song_04.mp4'']
     = ([''output/03 - Encore.mp4'', ''output/01 - Intro.mp4'', ''output/Song_04.mp4''],
        [Renamed ''output/Song_01.mp4'' ''output/01 - Intro.mp4'',
         RenameError ''output/Song_02.mp4'' ''output/02 - Second_Song.mp4'',
         Renamed ''output/Song_03.mp4'' ''output/03 - Encore.mp4''])
   \<and> renameFilesFromSetlist simple_rename
       (\<lambda>name. if name = ''setlist.txt''
                then Lines [''Intro'', [], ''Second Song!'', ''Encore''] else OpenError)
       (defaultConfig\<lparr>SetlistFile := ''setlist.txt''\<rparr>)
       [''output/Song_01.mp4'', ''output/Song_02.mp4'', ''output/Song_03.mp4'', ''output/Song_04.mp4'']
       [''output/Song_01.mp4'', ''output/Song_03.mp4'', ''output/Song_04.mp4'']
     = ([''output/03 - Encore.mp4'', ''output/01 - Intro.mp4'', ''output/Song_04.mp4''],
        [Renamed ''output/Song_01.mp4'' ''output/01 - Intro.mp4'',
         RenameError ''output/Song_02.mp4'' ''output/02 - Second_Song.mp4'',
         Renamed ''output/Song_03.mp4'' ''output/03 - Encore.mp4''])"
proof -
  let ?titles = "[''Intro'', ''Second Song!'', ''Encore'']"
  let ?files = "[''output/Song_01.mp4'', ''output/Song_02.mp4'', ''output/Song_03.mp4'',
                 ''output/Song_04.mp4'']"
  let ?fs = "[''output/Song_01.mp4'', ''output/Song_03.mp4'', ''output/Song_04.mp4'']"
  have p0: "newFilePath 0 ''output/Song_01.mp4'' ''Intro'' = ''output/01 - Intro.mp4''"
    by (simp add: eval_defs)
  have p1: "newFilePath (Suc 0) ''output/Song_02.mp4'' ''Second Song!''
              = ''output/02 - Second_Song.mp4''"
    by (simp add: eval_defs)
  have p2: "newFilePath (Suc (Suc 0)) ''output/Song_03.mp4'' ''Encore''
              = ''output/03 - Encore.mp4''"
    by (simp add: eval_defs)
  have idx: "[0..<length ?files] = [0, Suc 0, Suc (Suc 0), Suc (Suc (Suc 0))]"
    by (simp add: upt_rec)
  have pairs: "positional_pairs ?files ?titles
     = [(''output/Song_01.mp4'', ''output/01 - Intro.mp4''),
        (''output/Song_02.mp4'', ''output/02 - Second_Song.mp4''),
        (''output/Song_03.mp4'', ''output/03 - Encore.mp4'')]"
    unfolding positional_pairs_def idx by (simp add: p0 p1 p2)
  let ?open = "\<lambda>name. if name = ''setlist.txt''
                then Lines [''Intro'', [], ''Second Song!'', ''Encore''] else OpenError"
  let ?cfg = "defaultConfig\<lparr>SetlistFile := ''setlist.txt''\<rparr>"
  note inst = rename_pairs_files_with_titles_positionally
                [of simple_rename ?titles ?files ?fs ?open ?cfg]
  have attempts: "attempt_renames simple_rename (positional_pairs ?files ?titles) ?fs
      = ([''output/03 - Encore.mp4'', ''output/01 - Intro.mp4'', ''output/Song_04.mp4''],
        [Renamed ''output/Song_01.mp4'' ''output/01 - Intro.mp4'',
         RenameError ''output/Song_02.mp4'' ''output/02 - Second_Song.mp4'',
         Renamed ''output/Song_03.mp4'' ''output/03 - Encore.mp4''])"
    unfolding pairs by (simp add: simple_rename_def)
  have lines: "(case ?open (SetlistFile ?cfg) of
          Lines ls \<Rightarrow>
            attempt_renames simple_rename
              (positional_pairs ?files (filter (\<lambda>title. title \<noteq> []) ls)) ?fs
        | _ \<Rightarrow> (?fs, []))
      = attempt_renames simple_rename (positional_pairs ?files ?titles) ?fs"
    by simp
  have whole: "renameFilesFromSetlist simple_rename ?open ?cfg ?files ?fs
      = ([''output/03 - Encore.mp4'', ''output/01 - Intro.mp4'', ''output/Song_04.mp4''],
        [Renamed ''output/Song_01.mp4'' ''output/01 - Intro.mp4'',
         RenameError ''output/Song_02.mp4'' ''output/02 - Second_Song.mp4'',
         Renamed ''output/Song_03.mp4'' ''output/03 - Encore.mp4''])"
    using inst [THEN conjunct2, THEN conjunct1] unfolding lines attempts .
  from inst
  have "renameLoop simple_rename ?titles 0 ?files ?fs
          = attempt_renames simple_rename (positional_pairs ?files ?titles) ?fs"
    by (rule conjunct1)
  also note attempts
  finally have run: "renameLoop simple_rename ?titles 0 ?files ?fs
      = ([''output/03 - Encore.mp4'', ''output/01 - Intro.mp4'', ''output/Song_04.mp4''],
        [Renamed ''output/Song_01.mp4'' ''output/01 - Intro.mp4'',
         RenameError ''output/Song_02.mp4'' ''output/02 - Second_Song.mp4'',
         Renamed ''output/Song_03.mp4'' ''output/03 - Encore.mp4''])" .
  show ?thesis by (rule conjI [OF pairs conjI [OF run whole]])
qed

lemma word_char_iff: "word_char c = (is_letter c \<or> is_digit c \<or> c = CHR ''_'')"
  by (auto simp: word_char_def is_letter_def is_digit_def)

lemma not_invalidChars_iff:
  "(\<not> invalidChars c) =
     (is_letter c \<or> is_digit c \<or> space_char c \<or> c = CHR ''-'' \<or> c = CHR ''_'')"
  by (auto simp: invalidChars_def word_char_iff)

lemma sanitizeFilename_spec: "sanitizeFilename title = spec_sanitize title"
  by (simp add: sanitizeFilename_def spec_sanitize_def not_invalidChars_iff Let_def)

lemma slash_invalid: "invalidChars (CHR ''/'')"
  by (simp add: invalidChars_def word_char_def space_char_def)

lemma sanitizeFilename_no_sep: "CHR ''/'' \<notin> set (sanitizeFilename title)"
proof -
  have "CHR ''/'' \<notin> set (map (\<lambda>c. if c = CHR '' '' then CHR ''_'' else c)
                          (filter (\<lambda>c. \<not> invalidChars c) s))" for s
    using slash_invalid by (auto split: if_splits)
  then show ?thesis
    by (simp add: sanitizeFilename_def Let_def del: set_map set_filter)
qed

lemma decimal_digits: "c \<in> set (decimal n) \<Longrightarrow> c \<in> set ''0123456789''"
proof (induction n rule: decimal.induct)
  case (1 n)
  show ?case
  proof (cases "n < 10")
    case True
    with "1.prems" have "c = ''0123456789'' ! n" by (subst (asm) decimal.simps) simp
    moreover from True have "''0123456789'' ! n \<in> set ''0123456789''"
      by (intro nth_mem) simp
    ultimately show ?thesis by simp
  next
    case False
    with "1.prems" have "c \<in> set (decimal (n div 10)) \<or> c = ''0123456789'' ! (n mod 10)"
      by (subst (asm) decimal.simps) auto
    moreover have "''0123456789'' ! (n mod 10) \<in> set ''0123456789''"
      by (intro nth_mem) simp
    ultimately show ?thesis using "1.IH" [OF False] by blast
  qed
qed

lemma decimal_nonempty: "decimal n \<noteq> []"
  by (subst decimal.simps) simp

lemma sprintf_02d_no_sep: "CHR ''/'' \<notin> set (sprintf_02d n)"
proof
  assume "CHR ''/'' \<in> set (sprintf_02d n)"
  then have "CHR ''/'' \<in> set (decimal n)"
    by (auto simp: sprintf_02d_def Let_def)
  from decimal_digits [OF this] show False by simp
qed

lemma sprintf_02d_length: "2 \<le> length (sprintf_02d n)"
  by (simp add: sprintf_02d_def Let_def)

lemma sprintf_02d_two_digits:
  assumes "n < 100"
  shows "sprintf_02d n = [''0123456789'' ! (n div 10), ''0123456789'' ! (n mod 10)]"
proof (cases "n < 10")
  case True
  then have "decimal n = [''0123456789'' ! n]" by (subst decimal.simps) simp
  with True show ?thesis by (simp add: sprintf_02d_def)
next
  case False
  with assms have "n div 10 < 10" by simp
  then have "decimal (n div 10) = [''0123456789'' ! (n div 10)]" by (subst decimal.simps) simp
  with False have "decimal n = [''0123456789'' ! (n div 10), ''0123456789'' ! (n mod 10)]"
    by (subst decimal.simps) simp
  then show ?thesis by (simp add: sprintf_02d_def)
qed

lemma ext_scan_no_sep: "CHR ''/'' \<notin> set acc \<Longrightarrow> CHR ''/'' \<notin> set (ext_scan cs acc)"
  by (induction cs arbitrary: acc) auto

lemma filepath_Ext_no_sep: "CHR ''/'' \<notin> set (filepath_Ext path)"
  by (simp add: filepath_Ext_def ext_scan_no_sep)

lemma newFileName_no_sep: "CHR ''/'' \<notin> set (newFileName i old title)"
  using sprintf_02d_no_sep [of "i + 1"] sanitizeFilename_no_sep [of title] filepath_Ext_no_sep [of old]
  by (simp add: newFileName_def)

lemma newFileName_length: "5 \<le> length (newFileName i old title)"
  using sprintf_02d_length [of "i + 1"] by (simp add: newFileName_def)

lemma split_sep_nonempty: "split_sep s \<noteq> []"
  by (induction s) (auto split: list.splits)

lemma split_sep_no_sep: "CHR ''/'' \<notin> set s \<Longrightarrow> split_sep s = [s]"
  by (induction s) auto

lemma split_sep_append: "split_sep (a @ CHR ''/'' # b) = split_sep a @ split_sep b"
proof (induction a)
  case Nil
  show ?case by simp
next
  case (Cons c a)
  show ?case
  proof (cases "c = CHR ''/''")
    case True
    with Cons show ?thesis by simp
  next
    case False
    obtain e es where "split_sep a = e # es"
      using split_sep_nonempty [of a] by (cases "split_sep a") auto
    with False Cons show ?thesis by simp
  qed
qed

lemma clean_elems_append:
  "clean_elems rooted (es @ fs) out = clean_elems rooted fs (rev (clean_elems rooted es out))"
  by (induction es arbitrary: out) (auto split: list.splits)

lemma clean_elems_last:
  assumes "name \<noteq> ''''" "name \<noteq> ''.''" "name \<noteq> ''..''"
  shows "clean_elems rooted (es @ [name]) [] = clean_elems rooted es [] @ [name]"
  using assms by (simp add: clean_elems_append)

lemma join_sep_snoc:
  "join_sep (xs @ [name]) = (if xs = [] then name else join_sep xs @ CHR ''/'' # name)"
  by (induction xs rule: join_sep.induct) auto

lemma filepath_Clean_in_dir:
  assumes "CHR ''/'' \<notin> set name" "name \<noteq> ''''" "name \<noteq> ''.''" "name \<noteq> ''..''"
  shows "\<exists>dir. filepath_Clean (d @ CHR ''/'' # name) = dir @ name
               \<and> (dir = [] \<or> last dir = CHR ''/'')"
proof -
  define path where "path = d @ CHR ''/'' # name"
  define r where "r = (hd path = CHR ''/'')"
  define X where "X = clean_elems r (split_sep d) []"
  define J where "J = join_sep (clean_elems r (split_sep path) [])"
  have elems: "split_sep path = split_sep d @ [name]"
    by (simp add: path_def split_sep_append split_sep_no_sep [OF assms(1)])
  have J: "J = (if X = [] then name else join_sep X @ CHR ''/'' # name)"
    unfolding J_def elems clean_elems_last [OF assms(2-4)] join_sep_snoc X_def ..
  with assms(2) have J_ne: "J \<noteq> []" by auto
  have "path \<noteq> []" by (simp add: path_def)
  then have clean: "filepath_Clean path = (if r then CHR ''/'' # J else J)"
    using J_ne unfolding filepath_Clean_def Let_def r_def [symmetric] J_def [symmetric]
    by simp
  have "\<exists>dir. (if r then CHR ''/'' # J else J) = dir @ name \<and> (dir = [] \<or> last dir = CHR ''/'')"
  proof (cases "X = []")
    case True
    with J have "J = name" by simp
    then show ?thesis
      by (intro exI [of _ "if r then [CHR ''/''] else []"]) simp
  next
    case False
    with J have "J = (join_sep X @ [CHR ''/'']) @ name" by simp
    then show ?thesis
      by (intro exI [of _ "(if r then [CHR ''/''] else []) @ join_sep X @ [CHR ''/'']"]) simp
  qed
  then show ?thesis unfolding clean [symmetric] path_def .
qed

lemma filepath_Clean_nonempty: "filepath_Clean path \<noteq> ''''"
  by (auto simp: filepath_Clean_def Let_def)

lemma newFilePath_in_dir:
  "\<exists>dir. newFilePath i old title = dir @ newFileName i old title
         \<and> (dir = [] \<or> last dir = CHR ''/'')"
proof -
  let ?name = "newFileName i old title"
  have len: "5 \<le> length ?name" by (rule newFileName_length)
  then have ne: "?name \<noteq> ''''" "?name \<noteq> ''.''" "?name \<noteq> ''..''" by auto
  have dir: "filepath_Dir old \<noteq> ''''"
    by (simp add: filepath_Dir_def filepath_Clean_nonempty)
  then have "newFilePath i old title = filepath_Clean (filepath_Dir old @ CHR ''/'' # ?name)"
    by (simp add: newFilePath_def)
  with filepath_Clean_in_dir [OF newFileName_no_sep ne, of "filepath_Dir old"]
  show ?thesis by simp
qed

text \<open>
  Claim C8. \<^verbatim>\<open>sanitizeFilename\<close> does what the specification says: it trims the title,
  removes every character that is not a letter, a digit, white space, a hyphen or an
  underscore, replaces spaces by underscores and maps an empty result to the placeholder
  \<^verbatim>\<open>Untitled_Song\<close>. The path that the file at position \<open>i\<close> is renamed to is a directory
  prefix (empty or ending in the separator) followed by the name
  \<open>{i+1 as two digits} - {sanitised title}{extension of the old path}\<close>; the index is
  1-based and is written with exactly two digits up to 99.
\<close>

theorem sanitized_title_in_numbered_file_name:
  "sanitizeFilename title = spec_sanitize title
   \<and> (renameLoop os_Rename songTitles 0 exportedFiles fs = (fs', entries) \<and> i < length entries \<longrightarrow>
        (\<exists>dir. rename_target (entries ! i)
                  = dir @ sprintf_02d (i + 1) @ '' - '' @ spec_sanitize (songTitles ! i)
                      @ filepath_Ext (exportedFiles ! i)
               \<and> (dir = [] \<or> last dir = CHR ''/'')))
   \<and> (i + 1 < 100 \<longrightarrow>
        sprintf_02d (i + 1) = [''0123456789'' ! ((i + 1) div 10), ''0123456789'' ! ((i + 1) mod 10)])"
proof (intro conjI impI)
  show "sanitizeFilename title = spec_sanitize title"
    by (rule sanitizeFilename_spec)
next
  assume "i + 1 < 100"
  then show "sprintf_02d (i + 1)
      = [''0123456789'' ! ((i + 1) div 10), ''0123456789'' ! ((i + 1) mod 10)]"
    by (rule sprintf_02d_two_digits)
next
  assume run: "renameLoop os_Rename songTitles 0 exportedFiles fs = (fs', entries) \<and> i < length entries"
  then have entries: "entries = snd (renameLoop os_Rename songTitles 0 exportedFiles fs)"
    and i: "i < length entries" by simp_all
  from renameLoop_log [of os_Rename songTitles 0 exportedFiles fs] i
  have "rename_target (entries ! i) = newFilePath i (exportedFiles ! i) (songTitles ! i)"
    unfolding entries by simp
  moreover from newFilePath_in_dir [of i "exportedFiles ! i" "songTitles ! i"]
  obtain dir where "newFilePath i (exportedFiles ! i) (songTitles ! i)
        = dir @ newFileName i (exportedFiles ! i) (songTitles ! i)"
    and "dir = [] \<or> last dir = CHR ''/''"
    by blast
  ultimately show "\<exists>dir. rename_target (entries ! i)
                  = dir @ sprintf_02d (i + 1) @ '' - '' @ spec_sanitize (songTitles ! i)
                      @ filepath_Ext (exportedFiles ! i)
               \<and> (dir = [] \<or> last dir = CHR ''/'')"
    by (auto simp: newFileName_def sanitizeFilename_spec)
qed

text \<open>
  A title with surrounding spaces, a slash, a colon and parentheses; and the second file of
  a run, renamed to \<^verbatim>\<open>output/02 - Second_Song.mp4\<close>.
\<close>

theorem sanitized_title_in_numbered_file_name_witness:
  "sanitizeFilename ''  AC/DC: Back in Black (live)  '' = ''ACDC_Back_in_Black_live''
   \<and> spec_sanitize ''Second Song!'' = ''Second_Song''
   \<and> sprintf_02d 2 = ''02''
   \<and> filepath_Ext ''output/Song_02.mp4'' = ''.mp4''
   \<and> (\<exists>dir. ''output/02 - Second_Song.mp4''
               = dir @ sprintf_02d 2 @ '' - '' @ spec_sanitize ''Second Song!''
                   @ filepath_Ext ''output/Song_02.mp4''
             \<and> (dir = [] \<or> last dir = CHR ''/''))"
proof -
  let ?titles = "[''Intro'', ''Second Song!'']"
  let ?files = "[''output/Song_01.mp4'', ''output/Song_02.mp4'', ''output/Song_03.mp4'']"
  let ?entries = "[RenameError ''output/Song_01.mp4'' ''output/01 - Intro.mp4'',
         Renamed ''output/Song_02.mp4'' ''output/02 - Second_Song.mp4'']"
  have run: "renameLoop simple_rename ?titles 0 ?files
       [''output/Song_02.mp4'', ''output/Song_03.mp4'']
     = ([''output/02 - Second_Song.mp4'', ''output/Song_03.mp4''], ?entries)"
    by (simp add: eval_defs simple_rename_def)
  note inst = sanitized_title_in_numbered_file_name
    [of "''  AC/DC: Back in Black (live)  ''" simple_rename ?titles ?files
        "[''output/Song_02.mp4'', ''output/Song_03.mp4'']"
        "[''output/02 - Second_Song.mp4'', ''output/Song_03.mp4'']" ?entries 1]
  have a: "spec_sanitize ''  AC/DC: Back in Black (live)  '' = ''ACDC_Back_in_Black_live''"
    by (simp add: spec_sanitize_def is_letter_def is_digit_def eval_defs)
  from inst have "sanitizeFilename ''  AC/DC: Back in Black (live)  ''
      = spec_sanitize ''  AC/DC: Back in Black (live)  ''"
    by (rule conjunct1)
  with a have s: "sanitizeFilename ''  AC/DC: Back in Black (live)  '' = ''ACDC_Back_in_Black_live''"
    by simp
  have b: "spec_sanitize ''Second Song!'' = ''Second_Song''"
    by (simp add: spec_sanitize_def is_letter_def is_digit_def eval_defs)
  have c: "sprintf_02d 2 = ''02''" "filepath_Ext ''output/Song_02.mp4'' = ''.mp4''"
    by (simp_all add: eval_defs)
  have len: "1 < length ?entries" by simp
  from inst run len have ex: "\<exists>dir. rename_target (?entries ! 1)
                  = dir @ sprintf_02d (1 + 1) @ '' - '' @ spec_sanitize (?titles ! 1)
                      @ filepath_Ext (?files ! 1)
               \<and> (dir = [] \<or> last dir = CHR ''/'')"
    by blast
  have two: "(1::nat) + 1 = 2" by simp
  from ex have "\<exists>dir. ''output/02 - Second_Song.mp4''
               = dir @ sprintf_02d 2 @ '' - '' @ spec_sanitize ''Second Song!''
                   @ filepath_Ext ''output/Song_02.mp4''
             \<and> (dir = [] \<or> last dir = CHR ''/'')"
    unfolding two by simp
  with s b c show ?thesis by blast
qed


end
